theory Spec2Isabelle
  imports Complex_Main "HOL-Library.Log_Nat"
begin

section \<open>Platform functions the sources call\<close>

text \<open>
  The sources are JavaScript on Node. The few library functions they call are modelled
  here for the inputs the program gives them: POSIX paths that are already normal
  (\<open>path.join\<close>, \<open>path.resolve\<close>, \<open>path.dirname\<close>, \<open>path.basename\<close>),
  \<open>String.prototype.split\<close> on a one-character separator, the decimal rendering of a
  non-negative integer in a string concatenation, and \<open>util.format\<close> on format strings
  without \<open>%\<close> directives (no entry of the message catalogue has one).
\<close>

definition path_join :: "string \<Rightarrow> string \<Rightarrow> string" where
  "path_join dir name = dir @ ''/'' @ name"

definition strip_slashes :: "string \<Rightarrow> string" where
  "strip_slashes p = rev (dropWhile (\<lambda>c. c = CHR ''/'') (rev p))"

definition path_basename :: "string \<Rightarrow> string" where
  "path_basename p = rev (takeWhile (\<lambda>c. c \<noteq> CHR ''/'') (rev (strip_slashes p)))"

definition path_dirname :: "string \<Rightarrow> string" where
  "path_dirname p =
     (let d = strip_slashes (rev (dropWhile (\<lambda>c. c \<noteq> CHR ''/'') (rev (strip_slashes p))))
      in if d = [] then (if take 1 p = ''/'' then ''/'' else ''.'') else d)"

definition path_resolve :: "string \<Rightarrow> string \<Rightarrow> string" where
  "path_resolve cwd p = (if take 1 p = ''/'' then p else path_join cwd p)"

fun split_on :: "char \<Rightarrow> string \<Rightarrow> string list" where
  "split_on c [] = [[]]"
| "split_on c (x # xs) =
     (if x = c then [] # split_on c xs
      else (case split_on c xs of [] \<Rightarrow> [[x]] | y # ys \<Rightarrow> (x # y) # ys))"

definition digit_char :: "nat \<Rightarrow> char" where
  "digit_char d = char_of (48 + d)"

function show_nat :: "nat \<Rightarrow> string" where
  "show_nat n = (if n < 10 then [digit_char n] else show_nat (n div 10) @ [digit_char (n mod 10)])"
  by pat_completeness auto
termination
  by (relation "measure (\<lambda>n. n)") auto

text \<open>
  \<open>util.format(f, ...args)\<close>: a string \<open>f\<close> alone is returned as it is; further
  arguments that no directive consumes are appended, separated by blanks; a first
  argument that is not a string (here only \<open>undefined\<close>, the value \<open>None\<close>) is rendered
  and joined with the others by blanks (current Node releases; older ones put the
  string arguments in quotes).
\<close>

fun join_blank :: "string list \<Rightarrow> string" where
  "join_blank [] = []"
| "join_blank [x] = x"
| "join_blank (x # y # ys) = x @ '' '' @ join_blank (y # ys)"

definition util_format :: "string option \<Rightarrow> string list \<Rightarrow> string" where
  "util_format f args =
     (case f of None \<Rightarrow> join_blank (''undefined'' # args) | Some s \<Rightarrow> join_blank (s # args))"

definition str_includes :: "string \<Rightarrow> string \<Rightarrow> bool" where
  "str_includes s pat = list_ex (\<lambda>k. take (length pat) (drop k s) = pat) [0..<Suc (length s)]"

definition endsWith :: "string \<Rightarrow> string \<Rightarrow> bool" where
  "endsWith s suffix = (length suffix \<le> length s \<and> drop (length s - length suffix) s = suffix)"

definition toUpperCase :: "string \<Rightarrow> string" where
  "toUpperCase s =
     map (\<lambda>c. let n = (of_char c :: nat) in if 97 \<le> n \<and> n \<le> 122 then char_of (n - 32) else c) s"

section \<open>JavaScript values and errors\<close>

datatype jsval =
    JUndefined
  | JNull
  | JBool bool
  | JNum int
  | JStr string
  | JArr "jsval list"
  | JObj "(string \<times> jsval) list"

fun truthy :: "jsval \<Rightarrow> bool" where
  "truthy JUndefined = False"
| "truthy JNull = False"
| "truthy (JBool b) = b"
| "truthy (JNum n) = (n \<noteq> 0)"
| "truthy (JStr s) = (s \<noteq> [])"
| "truthy (JArr xs) = True"
| "truthy (JObj kvs) = True"

definition isNil :: "jsval \<Rightarrow> bool" where
  "isNil v = (v = JUndefined \<or> v = JNull)"

text \<open>
  An Error-like value: the properties the pipeline reads. \<open>action\<close>, \<open>rows\<close> and
  \<open>columns\<close> are the optional properties of a classified error; the stack trace is
  left out.
\<close>

record js_error =
  name :: string
  message :: string
  action :: "string option"
  rows :: jsval
  columns :: jsval

definition new_Error :: "string \<Rightarrow> js_error" where
  "new_Error msg = \<lparr>name = ''Error'', message = msg, action = None, rows = JUndefined, columns = JUndefined\<rparr>"

definition new_TypeError :: "string \<Rightarrow> js_error" where
  "new_TypeError msg = (new_Error msg)\<lparr>name := ''TypeError''\<rparr>"

section \<open>The message catalogue (lib/messages.js)\<close>

text \<open>
  \<open>messages[bundle][locale]\<close>: the locale is the constant \<open>en_US\<close> of \<open>_getLocale\<close>
  (every module instantiates the catalogue without an argument), and each bundle has
  exactly that locale, so a bundle is given by its \<open>en_US\<close> table.
\<close>

definition messages :: "(string \<times> (string \<times> string) list) list" where
  "messages =
    [(''default'',
        [(''displayCommandDataSplitHelp'',
          ''Break up large data files into file with 200 or less records'')]),
     (''data'',
        [(''name'', ''data''),
         (''mainTopicDescriptionHelp'', ''Utility for manipulating data''),
         (''mainTopicLongDescriptionHelp'', ''Utility for manipulating data'')]),
     (''data_split'',
        [(''help'', ''Split data files that have more than 200 records into smaller bits''),
         (''description'', ''Split large data files into smaller ones''),
         (''longDescription'', ''Split large data files into smaller ones''),
         (''GeneralError'', ''A general error for the Data split command.''),
         (''dataSplitFileNotFound'', ''Could not find specified file'')])]"

definition getLocale :: string where
  "getLocale = ''en_US''"

text \<open>
  \<open>getMessage(label, args, bundle = 'default')\<close>. An unknown bundle makes
  \<open>messages[bundle][locale]\<close> a property read on \<open>undefined\<close> (a TypeError); an unknown
  label throws an Error whose text is formatted from the bundle's
  \<open>UndefinedLocalizationLabel\<close> entry, which no bundle has.
\<close>

definition getMessage :: "string \<Rightarrow> string list option \<Rightarrow> string \<Rightarrow> js_error + string" where
  "getMessage label args bundle =
     (case map_of messages bundle of
        None \<Rightarrow> Inl (new_TypeError (''Cannot read property '' @ getLocale @ '' of undefined''))
      | Some bundleLocale \<Rightarrow>
          (case map_of bundleLocale label of
             None \<Rightarrow>
               Inl (new_Error (util_format (map_of bundleLocale ''UndefinedLocalizationLabel'')
                                  [bundle, label, getLocale]))
           | Some text \<Rightarrow>
               (case args of
                  None \<Rightarrow> Inr text
                | Some tokens \<Rightarrow> Inr (util_format (Some text) tokens))))"

section \<open>The error factory (lib/pluginError.js)\<close>

definition PluginErrors :: "(string \<times> string) list" where
  "PluginErrors = [(''dataSplitFileNotFound'', ''InvalidDataImport''), (''sourcePushFailed'', ''DeployFailed'')]"

text \<open>An error or action key: a plain string, or an object \<open>{keyName, bundle}\<close>.\<close>

datatype msg_key = KeyString string | KeyObject string "string option"

definition updateError :: "msg_key \<Rightarrow> string list option \<Rightarrow> js_error + string" where
  "updateError key tokens =
     (case key of
        KeyString k \<Rightarrow> getMessage k tokens ''default''
      | KeyObject k b \<Rightarrow> getMessage k tokens (case b of None \<Rightarrow> ''default'' | Some bn \<Rightarrow> bn))"

text \<open>
  \<open>PluginError(errorKey, errorTokens, actionKey, actionTokens)\<close>: \<open>Inl\<close> is an error
  thrown while the error is being built, \<open>Inr\<close> the error it returns.
\<close>

definition PluginError ::
  "msg_key \<Rightarrow> string list option \<Rightarrow> msg_key option \<Rightarrow> string list option \<Rightarrow> js_error + js_error" where
  "PluginError errorKey errorTokens actionKey actionTokens =
     (case updateError errorKey errorTokens of
        Inl thrown \<Rightarrow> Inl thrown
      | Inr msg \<Rightarrow>
          (let key = (case errorKey of KeyString k \<Rightarrow> k | KeyObject k b \<Rightarrow> k);
               nm = (case map_of PluginErrors key of None \<Rightarrow> key | Some n \<Rightarrow> n)
           in case actionKey of
                None \<Rightarrow> Inr ((new_Error msg)\<lparr>name := nm\<rparr>)
              | Some ak \<Rightarrow>
                  (case updateError ak actionTokens of
                     Inl thrown \<Rightarrow> Inl thrown
                   | Inr act \<Rightarrow> Inr ((new_Error msg)\<lparr>name := nm, action := Some act\<rparr>))))"

section \<open>The data splitter (lib/data/dataApi.js)\<close>

text \<open>
  The file system holds JSON documents by path. A manifest is a JSON array of plan
  entries; an entry is given by its \<open>files\<close> list, the only property the code reads or
  writes. A data file is \<open>{records: [...]}\<close> with records of any type \<open>'r\<close>.
\<close>

datatype 'r json_file = PlanFile "string list list" | DataFile "'r list"

type_synonym 'r filesystem = "string \<Rightarrow> 'r json_file option"

text \<open>
  The run's state. Arrays of file names are objects that several references can share, so
  they live in a heap, addressed by position. \<open>temparray\<close> is the module variable: a
  reference. \<open>plan\<close> is the parsed manifest: for each entry, the reference its \<open>files\<close>
  property holds. \<open>writes\<close> are the \<open>fs.writeFile\<close> requests in the order they were
  issued; they are asynchronous, so every read of the run sees the file system as it
  was at the start. Console output is left out.
\<close>

record 'r split_state =
  heap :: "string list list"
  temparray :: nat
  plan :: "nat list"
  writes :: "(string \<times> 'r json_file) list"

definition chunk :: nat where
  "chunk = 200"

definition validateFile :: "'r filesystem \<Rightarrow> string \<Rightarrow> bool" where
  "validateFile fs p = (fs p \<noteq> None)"

definition writeFile :: "string \<Rightarrow> 'r json_file \<Rightarrow> 'r split_state \<Rightarrow> 'r split_state" where
  "writeFile nm contents s = s\<lparr>writes := writes s @ [(nm, contents)]\<rparr>"

definition push :: "nat \<Rightarrow> string \<Rightarrow> 'r split_state \<Rightarrow> 'r split_state" where
  "push a x s = s\<lparr>heap := (heap s)[a := heap s ! a @ [x]]\<rparr>"

definition new_array :: "'r split_state \<Rightarrow> nat \<times> 'r split_state" where
  "new_array s = (length (heap s), s\<lparr>heap := heap s @ [[]]\<rparr>)"

definition writeDataFile :: "string \<Rightarrow> string \<Rightarrow> 'r list \<Rightarrow> 'r split_state \<Rightarrow> 'r split_state" where
  "writeDataFile datafolder fileName recs s =
     (let s1 = writeFile (path_join datafolder fileName) (DataFile recs) s
      in push (temparray s1) fileName s1)"

definition slice :: "'a list \<Rightarrow> nat \<Rightarrow> nat \<Rightarrow> 'a list" where
  "slice xs a b = take (b - a) (drop a xs)"

text \<open>\<open>fname[k]\<close> in a string concatenation: a missing part reads \<open>undefined\<close>.\<close>

definition part :: "string list \<Rightarrow> nat \<Rightarrow> string" where
  "part fname k = (if k < length fname then fname ! k else ''undefined'')"

definition chunk_name :: "string \<Rightarrow> nat \<Rightarrow> string" where
  "chunk_name f i =
     (let fname = split_on CHR ''.'' (path_basename f)
      in part fname 0 @ show_nat i @ ''.'' @ part fname 1)"

function breakup_loop ::
  "string \<Rightarrow> string \<Rightarrow> 'r list \<Rightarrow> nat \<Rightarrow> nat \<Rightarrow> 'r split_state \<Rightarrow> 'r split_state" where
  "breakup_loop datafolder f records i j s =
     (if i < j
      then breakup_loop datafolder f records (i + chunk) j
             (writeDataFile datafolder (chunk_name f i) (slice records i (i + chunk)) s)
      else s)"
  by pat_completeness auto
termination
  by (relation "measure (\<lambda>(datafolder, f, records, i, j, s). j - i)") (auto simp: chunk_def)

text \<open>
  \<open>require(path).records\<close>: a missing file throws; a JSON array has no \<open>records\<close>
  property, and reading \<open>length\<close> of \<open>undefined\<close> throws.
\<close>

definition require_records :: "'r filesystem \<Rightarrow> string \<Rightarrow> js_error + 'r list" where
  "require_records fs p =
     (case fs p of
        None \<Rightarrow> Inl (new_Error (''Cannot find module '' @ p))
      | Some (PlanFile entries) \<Rightarrow> Inl (new_TypeError ''Cannot read property length of undefined'')
      | Some (DataFile records) \<Rightarrow> Inr records)"

definition breakupDataFile ::
  "'r filesystem \<Rightarrow> string \<Rightarrow> string \<Rightarrow> 'r split_state \<Rightarrow> js_error + 'r split_state" where
  "breakupDataFile fs datafolder f s =
     (case require_records fs (path_join datafolder f) of
        Inl thrown \<Rightarrow> Inl thrown
      | Inr records \<Rightarrow>
          if length records \<le> 200 then Inr (push (temparray s) f s)
          else (let (a, s1) = new_array s
                in Inr (breakup_loop datafolder f records 0 (length records) (s1\<lparr>temparray := a\<rparr>))))"

text \<open>The inner \<open>_.forEach(p.files, ...)\<close>: the first throw ends the run.\<close>

fun each_file ::
  "'r filesystem \<Rightarrow> string \<Rightarrow> string list \<Rightarrow> 'r split_state \<Rightarrow> js_error + 'r split_state" where
  "each_file fs datafolder [] s = Inr s"
| "each_file fs datafolder (f # rest) s =
     (case breakupDataFile fs datafolder f s of
        Inl thrown \<Rightarrow> Inl thrown
      | Inr s1 \<Rightarrow> each_file fs datafolder rest s1)"

text \<open>\<open>JSON.stringify(plan)\<close>: the manifest as it is in memory now.\<close>

definition stringify_plan :: "'r split_state \<Rightarrow> 'r json_file" where
  "stringify_plan s = PlanFile (map (\<lambda>a. heap s ! a) (plan s))"

text \<open>
  The outer \<open>_.forEach(plan, ...)\<close>, over the positions of the entries: the inner loop
  over the entry's files, then \<open>p.files = temparray\<close> (the reference, not a copy) and a
  write of the whole manifest.
\<close>

fun each_entry ::
  "'r filesystem \<Rightarrow> string \<Rightarrow> string \<Rightarrow> nat list \<Rightarrow> 'r split_state \<Rightarrow> js_error + 'r split_state" where
  "each_entry fs filepath datafolder [] s = Inr s"
| "each_entry fs filepath datafolder (k # ks) s =
     (case each_file fs datafolder (heap s ! (plan s ! k)) s of
        Inl thrown \<Rightarrow> Inl thrown
      | Inr s1 \<Rightarrow>
          (let s2 = s1\<lparr>plan := (plan s1)[k := temparray s1]\<rparr>
           in each_entry fs filepath datafolder ks (writeFile filepath (stringify_plan s2) s2)))"

text \<open>
  The state when the manifest has been loaded: address 0 is the empty array the module
  starts with in \<open>temparray\<close>; the entries' \<open>files\<close> arrays follow.
\<close>

definition loaded :: "string list list \<Rightarrow> 'r split_state" where
  "loaded entries =
     \<lparr>heap = [] # entries, temparray = 0, plan = [1..<Suc (length entries)], writes = []\<rparr>"

text \<open>
  \<open>_splitFiles(context)\<close>, with \<open>process.cwd()\<close> and \<open>context.flags.dataplan\<close> as
  arguments. In \<open>throw pluginError(messages.getMessage(...))\<close> the message text that
  \<open>getMessage\<close> returns is passed on as the error key. A manifest that is a JSON object
  \<open>{records: [...]}\<close> has one property whose value has no \<open>files\<close>: nothing is
  iterated and the document is written back.
\<close>

definition splitFiles :: "'r filesystem \<Rightarrow> string \<Rightarrow> string \<Rightarrow> js_error + 'r split_state" where
  "splitFiles fs cwd dataplan =
     (let filepath = path_resolve cwd dataplan;
          datafolder = path_dirname filepath
      in if \<not> validateFile fs filepath
         then (case getMessage ''dataSplitFileNotFound'' (Some []) ''data_split'' of
                 Inl thrown \<Rightarrow> Inl thrown
               | Inr text \<Rightarrow>
                   (case PluginError (KeyString text) None None None of
                      Inl thrown \<Rightarrow> Inl thrown
                    | Inr err \<Rightarrow> Inl err))
         else (case fs filepath of
                 None \<Rightarrow> Inl (new_Error (''Cannot find module '' @ filepath))
               | Some (DataFile records) \<Rightarrow>
                   Inr (writeFile filepath (DataFile records) (loaded []))
               | Some (PlanFile entries) \<Rightarrow>
                   each_entry fs filepath datafolder [0..<length entries] (loaded entries)))"

text \<open>The file system once the writes have completed, in the order they were issued.\<close>

definition apply_writes :: "'r filesystem \<Rightarrow> (string \<times> 'r json_file) list \<Rightarrow> 'r filesystem" where
  "apply_writes fs ws = foldl (\<lambda>m (p, c). m(p \<mapsto> c)) fs ws"

section \<open>Numbers\<close>

text \<open>
  A JavaScript number is an IEEE 754 double: a finite value (a rational that the format
  represents), an infinity, or NaN. The two zeros are one value here: they differ only
  under division by zero and in the sign of a printed zero, and the code modelled does
  neither. \<open>to_double\<close> rounds an exact result to the format: to the nearest multiple
  of the unit in the last place of its binade (53 significant bits, exponents from
  \<open>-1022\<close>, below that the subnormal spacing), a tie to the even multiple, and to an
  infinity from \<open>2^1024\<close> on.
\<close>

datatype double = Finite rat | PosInf | NegInf | NaN

text \<open>The binary exponent of a non-zero rational: \<open>2^e \<le> |x| < 2^(e+1)\<close>.\<close>

definition expo :: "rat \<Rightarrow> int" where
  "expo x =
     (let (p, q) = quotient_of \<bar>x\<bar>; e0 = bitlen p - bitlen q
      in if 2 powi e0 \<le> \<bar>x\<bar> then e0 else e0 - 1)"

definition round_half_even :: "rat \<Rightarrow> int" where
  "round_half_even y =
     (let f = \<lfloor>y\<rfloor>; d = y - of_int f
      in if d < 1 / 2 then f else if 1 / 2 < d then f + 1 else if even f then f else f + 1)"

definition ulp :: "rat \<Rightarrow> rat" where
  "ulp x = 2 powi (max (expo x) (- 1022) - 52)"

definition to_double :: "rat \<Rightarrow> double" where
  "to_double x =
     (if x = 0 then Finite 0
      else let r = of_int (round_half_even (x / ulp x)) * ulp x
           in if 2 powi 1024 \<le> \<bar>r\<bar> then (if 0 < x then PosInf else NegInf) else Finite r)"

text \<open>The sign of a number that is not NaN.\<close>

fun d_sign :: "double \<Rightarrow> int" where
  "d_sign (Finite a) = (if 0 < a then 1 else if a < 0 then - 1 else 0)"
| "d_sign PosInf = 1"
| "d_sign NegInf = - 1"
| "d_sign NaN = 0"

fun d_add :: "double \<Rightarrow> double \<Rightarrow> double" where
  "d_add (Finite a) (Finite b) = to_double (a + b)"
| "d_add NaN y = NaN"
| "d_add x NaN = NaN"
| "d_add PosInf NegInf = NaN"
| "d_add NegInf PosInf = NaN"
| "d_add PosInf y = PosInf"
| "d_add x PosInf = PosInf"
| "d_add NegInf y = NegInf"
| "d_add x NegInf = NegInf"

fun d_mul :: "double \<Rightarrow> double \<Rightarrow> double" where
  "d_mul (Finite a) (Finite b) = to_double (a * b)"
| "d_mul NaN y = NaN"
| "d_mul x NaN = NaN"
| "d_mul x y =
     (if d_sign x * d_sign y = 0 then NaN
      else if 0 < d_sign x * d_sign y then PosInf else NegInf)"

fun d_div :: "double \<Rightarrow> double \<Rightarrow> double" where
  "d_div (Finite a) (Finite b) =
     (if b = 0 then (if a = 0 then NaN else if 0 < a then PosInf else NegInf)
      else to_double (a / b))"
| "d_div NaN y = NaN"
| "d_div x NaN = NaN"
| "d_div (Finite a) y = Finite 0"
| "d_div x (Finite b) = (if (0 < d_sign x) = (0 \<le> b) then PosInf else NegInf)"
| "d_div x y = NaN"

text \<open>\<open>Math.round\<close>: the nearest integer, a half upwards; exact on a double.\<close>

fun d_round :: "double \<Rightarrow> double" where
  "d_round (Finite a) = Finite (of_int (round a))"
| "d_round x = x"

fun d_rank :: "double \<Rightarrow> int" where
  "d_rank NegInf = - 1"
| "d_rank PosInf = 1"
| "d_rank x = 0"

fun d_less :: "double \<Rightarrow> double \<Rightarrow> bool" where
  "d_less (Finite a) (Finite b) = (a < b)"
| "d_less NaN y = False"
| "d_less x NaN = False"
| "d_less x y = (d_rank x < d_rank y)"

section \<open>Usage telemetry (lib/utils.js, \<open>_logCommandComplete\<close>)\<close>

text \<open>
  An entry of the analytics feed, and a usage record. \<open>runtime\<close> is the number as it
  is written in the feed; \<open>JSON.parse\<close> makes it a double. The counters and the
  statistics of a usage record are doubles, as every number of the program is.
\<close>

record analytics_command =
  command :: string
  version :: string
  plugin_version :: "string option"
  runtime :: rat
  status :: int

record usage =
  commandName :: string
  toolbeltVersion :: string
  hubOrgId :: string
  usageDate :: string
  totalExecutions :: double
  totalErrors :: double
  avgRuntime :: double
  minRuntime :: double
  maxRuntime :: double

definition parsed_runtime :: "analytics_command \<Rightarrow> double" where
  "parsed_runtime c = to_double (runtime c)"

definition version_of :: "analytics_command \<Rightarrow> string" where
  "version_of c =
     (case plugin_version c of
        None \<Rightarrow> version c
      | Some pv \<Rightarrow> if pv = [] then version c else version c @ '' '' @ pv)"

definition commandKey :: "analytics_command \<Rightarrow> string" where
  "commandKey c = command c @ ''-'' @ version_of c"

definition new_usage :: "string \<Rightarrow> string \<Rightarrow> analytics_command \<Rightarrow> usage" where
  "new_usage orgId day c =
     \<lparr>commandName = command c, toolbeltVersion = version_of c, hubOrgId = orgId, usageDate = day,
      totalExecutions = Finite 0, totalErrors = Finite 0, avgRuntime = Finite 0,
      minRuntime = parsed_runtime c, maxRuntime = parsed_runtime c\<rparr>"

text \<open>\<open>usages[key] = u\<close> on an object: an existing property keeps its place, a new one comes last.\<close>

fun put :: "string \<Rightarrow> usage \<Rightarrow> (string \<times> usage) list \<Rightarrow> (string \<times> usage) list" where
  "put k u [] = [(k, u)]"
| "put k u ((k', u') # rest) = (if k' = k then (k, u) # rest else (k', u') # put k u rest)"

text \<open>The body of \<open>commands.forEach\<close> in \<open>calcUsage\<close>, statement by statement.\<close>

definition record_usage ::
  "string \<Rightarrow> string \<Rightarrow> (string \<times> usage) list \<Rightarrow> analytics_command \<Rightarrow> (string \<times> usage) list" where
  "record_usage orgId day usages c =
     (let rt = parsed_runtime c;
          u0 = (case map_of usages (commandKey c) of None \<Rightarrow> new_usage orgId day c | Some u \<Rightarrow> u);
          u1 = (if status c \<noteq> 0 then u0\<lparr>totalErrors := d_add (totalErrors u0) (Finite 1)\<rparr> else u0);
          u2 = u1\<lparr>avgRuntime :=
                 d_round (d_div (d_add rt (d_mul (avgRuntime u1) (totalExecutions u1)))
                                (d_add (totalExecutions u1) (Finite 1)))\<rparr>;
          u3 = u2\<lparr>totalExecutions := d_add (totalExecutions u2) (Finite 1)\<rparr>;
          u4 = (if d_less (maxRuntime u3) rt then u3\<lparr>maxRuntime := rt\<rparr>
                else if d_less rt (minRuntime u3) then u3\<lparr>minRuntime := rt\<rparr>
                else u3)
      in put (commandKey c) u4 usages)"

text \<open>
  What the telemetry step finds outside the program. An asynchronous call settles one
  way or the other (\<open>Inl\<close>: it rejects). The output of \<open>sfdx analytics\<close> is either
  something that makes \<open>JSON.parse(stdout).commands\<close> throw, a document without
  \<open>commands\<close>, or a list of commands.
\<close>

datatype analytics_stdout = Unparsable | NoCommands | Commands "analytics_command list"

record usage_config =
  startTime :: "int option"

record telemetry_env =
  start :: "int option"
  now :: int
  startOfDay :: int
  today :: string
  getGlobalConfig :: "js_error + usage_config"
  saveGlobalConfig :: "usage_config \<Rightarrow> js_error + unit"
  hubOrg_getConfig :: "js_error + string"
  analytics_status :: int
  analytics_out :: analytics_stdout
  logServerUsages :: "usage list \<Rightarrow> js_error + unit"

text \<open>What the telemetry step does to the outside, in order.\<close>

datatype tele_event =
    Done string "int option"
  | SavedConfig usage_config
  | SentUsages "usage list"
  | ClearedAnalytics

definition dayInMilliseconds :: int where
  "dayInMilliseconds = 1000 * 60 * 60 * 24"

text \<open>
  \<open>calcUsage\<close>: \<open>Inl\<close> is a rejection or a throw (\<open>commands.forEach\<close> on
  \<open>undefined\<close>), \<open>Inr\<close> the events of a run that resolved.
\<close>

definition calcUsage :: "telemetry_env \<Rightarrow> string \<Rightarrow> js_error + tele_event list" where
  "calcUsage tenv orgId =
     (if analytics_status tenv = 1 then Inr []
      else case analytics_out tenv of
             Unparsable \<Rightarrow> Inr []
           | NoCommands \<Rightarrow> Inl (new_TypeError ''Cannot read property forEach of undefined'')
           | Commands commands \<Rightarrow>
               (let usages = map snd (foldl (record_usage orgId (today tenv)) [] commands)
                in case logServerUsages tenv usages of
                     Inl e \<Rightarrow> Inl e
                   | Inr u \<Rightarrow> Inr [SentUsages usages]))"

text \<open>
  The handler of \<open>getGlobalConfig(...).then\<close>: the events it causes, and how the promise
  it returns settles. A first save that rejects leaves \<open>retPromise\<close> rejected; the
  handler goes on, and returns it only if the day has not rolled over.
\<close>

definition usage_flow :: "telemetry_env \<Rightarrow> usage_config \<Rightarrow> tele_event list \<times> (js_error + unit)" where
  "usage_flow tenv contents =
     (let unset = (startTime contents = None \<or> startTime contents = Some 0);
          contents1 = (if unset then contents\<lparr>startTime := Some (startOfDay tenv)\<rparr> else contents);
          ev1 = (if unset then [SavedConfig contents1] else []);
          retPromise = (if unset then saveGlobalConfig tenv contents1 else Inr ());
          since = (case startTime contents1 of None \<Rightarrow> 0 | Some t \<Rightarrow> t)
      in if now tenv - since \<ge> dayInMilliseconds
         then (case hubOrg_getConfig tenv of
                 Inl e \<Rightarrow> (ev1, Inl e)
               | Inr orgId \<Rightarrow>
                   (case calcUsage tenv orgId of
                      Inl e \<Rightarrow> (ev1, Inl e)
                    | Inr ev2 \<Rightarrow>
                        (let contents2 = contents1\<lparr>startTime := Some (startOfDay tenv)\<rparr>
                         in (ev1 @ ev2 @ [ClearedAnalytics, SavedConfig contents2],
                             saveGlobalConfig tenv contents2))))
         else (ev1, retPromise))"

text \<open>
  \<open>_logCommandComplete(cmdName)\<close>: the events, and the settlement of the promise it
  returns, after the final \<open>.catch(() => {})\<close>.
\<close>

definition swallow :: "js_error + unit \<Rightarrow> js_error + unit" where
  "swallow r = (case r of Inl e \<Rightarrow> Inr () | Inr u \<Rightarrow> Inr u)"

definition logCommandComplete :: "telemetry_env \<Rightarrow> string \<Rightarrow> tele_event list \<times> (js_error + unit)" where
  "logCommandComplete tenv cmdName =
     (let totalTime = (case start tenv of None \<Rightarrow> None | Some s \<Rightarrow> Some (now tenv - s));
          done = Done cmdName totalTime
      in case getGlobalConfig tenv of
           Inl e \<Rightarrow> ([done], swallow (Inl e))
         | Inr contents \<Rightarrow>
             (let (ev, r) = usage_flow tenv contents in (done # ev, swallow r)))"

section \<open>The command pipeline (lib/utils.js)\<close>

subsection \<open>Context, command, environment\<close>

record org =
  usingAccessToken :: bool
  callable :: bool
  org_getConfig :: "js_error + jsval"

record cli_context =
  flags :: "(string \<times> jsval) list"
  json :: bool
  showProgress :: bool
  requiresWorkspace :: bool
  org :: "org option"
  softExit :: jsval

text \<open>
  What \<open>getColumnData()\<close> returns: a plain object of column lists by table name, or
  one column description.
\<close>

datatype coldata = ColTables "(string \<times> jsval) list" | ColFlat jsval

text \<open>
  A command object. Only \<open>execute\<close> is required. \<open>validate\<close> and \<open>execute\<close> run inside
  promise handlers, where a throw and a rejection are the same (\<open>Inl\<close>); \<open>validate\<close>
  may return nothing (\<open>None\<close>). Both can read and set \<open>process.exitCode\<close>: a handler
  takes the exit code it finds and returns, with its settlement, the exit code it leaves.
  What a command prints itself is left out. The reporting hooks are total functions of
  their argument.
\<close>

type_synonym 'a handler = "nat option \<Rightarrow> (js_error + 'a) \<times> nat option"

record cmd =
  validate :: "(cli_context \<Rightarrow> cli_context option handler) option"
  execute :: "cli_context \<Rightarrow> jsval handler"
  getPreExecuteMessage :: "(jsval \<Rightarrow> string) option"
  getColumnData :: "coldata option"
  getEmptyResultMessage :: "(string \<Rightarrow> string option) option"
  getHumanSuccessMessage :: "(jsval \<Rightarrow> string option) option"
  getHumanErrorMessage :: "(js_error \<Rightarrow> string option) option"

text \<open>
  The process environment: the variables the pipeline reads, what
  \<open>new Config().getAppConfig().softExit\<close> evaluates to (\<open>Inl\<close>: the attempt throws),
  whether the logger is at error level, and how \<open>logger.logServerError\<close> settles.
\<close>

record env =
  SFDX_CONTENT_TYPE :: "string option"
  FORCE_CONTENT_TYPE :: "string option"
  FORCE_SHOW_SPINNER :: "string option"
  SOFT_EXIT :: "string option"
  appConfig_softExit :: "js_error + jsval"
  logger_isError :: bool
  logServerError :: "js_error \<Rightarrow> js_error + jsval"

subsection \<open>Process state and promise chains\<close>

text \<open>The error object \<open>{message, status, name, action}\<close> that \<open>_logError\<close> composes.\<close>

datatype error_object = ErrorObject jsval nat string "string option"

datatype log_output =
    LogJson nat jsval
  | LogJsonError error_object
  | Log string
  | LogTable jsval jsval
  | LogAction string string
  | LogError string
  | LogErrorDebug error_object

text \<open>
  \<open>exit_calls\<close> counts the calls of \<open>_exit\<close>, \<open>exit_timers\<close> the deferred
  \<open>process.exit\<close> timers it has set.
\<close>

record proc =
  exitCode :: "nat option"
  spinning :: bool
  out :: "log_output list"
  exit_calls :: nat
  exit_timers :: nat
  tele :: "tele_event list"

text \<open>
  How a promise chain ends: resolved, rejected, or cut off because \<open>process.exit\<close>
  ended the process with the given code. A task is a stage of the chain: from the
  process state to a settlement and the new state.
\<close>

datatype 'a settled = Resolved 'a | Rejected js_error | Exited nat

type_synonym 'a task = "proc \<Rightarrow> 'a settled \<times> proc"

definition resolve :: "'a \<Rightarrow> 'a task" where
  "resolve v p = (Resolved v, p)"

definition reject :: "js_error \<Rightarrow> 'a task" where
  "reject e p = (Rejected e, p)"

definition then_task :: "'a task \<Rightarrow> ('a \<Rightarrow> 'b task) \<Rightarrow> 'b task" where
  "then_task m f p =
     (case m p of
        (Resolved v, p1) \<Rightarrow> f v p1
      | (Rejected e, p1) \<Rightarrow> (Rejected e, p1)
      | (Exited c, p1) \<Rightarrow> (Exited c, p1))"

definition catch_task :: "'a task \<Rightarrow> (js_error \<Rightarrow> 'a task) \<Rightarrow> 'a task" where
  "catch_task m h p =
     (case m p of
        (Resolved v, p1) \<Rightarrow> (Resolved v, p1)
      | (Rejected e, p1) \<Rightarrow> h e p1
      | (Exited c, p1) \<Rightarrow> (Exited c, p1))"

text \<open>
  \<open>.finally(h)\<close>: \<open>h\<close> runs on either settlement, which is kept unless \<open>h\<close> itself
  throws or rejects.
\<close>

definition finally_task :: "'a task \<Rightarrow> unit task \<Rightarrow> 'a task" where
  "finally_task m h p =
     (case m p of
        (Exited c, p1) \<Rightarrow> (Exited c, p1)
      | (r, p1) \<Rightarrow>
          (case h p1 of
             (Resolved u, p2) \<Rightarrow> (r, p2)
           | (Rejected e, p2) \<Rightarrow> (Rejected e, p2)
           | (Exited c, p2) \<Rightarrow> (Exited c, p2)))"

definition emit :: "log_output \<Rightarrow> unit task" where
  "emit x p = (Resolved (), p\<lparr>out := out p @ [x]\<rparr>)"

definition of_sum :: "js_error + 'a \<Rightarrow> 'a task" where
  "of_sum r = (case r of Inl e \<Rightarrow> reject e | Inr v \<Rightarrow> resolve v)"

text \<open>A handler of the command as a stage: it sees and leaves \<open>process.exitCode\<close>.\<close>

definition run_handler :: "'a handler \<Rightarrow> 'a task" where
  "run_handler h p =
     (case h (exitCode p) of
        (r, code) \<Rightarrow>
          ((case r of Inl e \<Rightarrow> Rejected e | Inr v \<Rightarrow> Resolved v), p\<lparr>exitCode := code\<rparr>))"

subsection \<open>Spinner, output mode\<close>

definition env_truthy :: "string option \<Rightarrow> bool" where
  "env_truthy v = (case v of None \<Rightarrow> False | Some s \<Rightarrow> s \<noteq> [])"

definition startSpinner :: "env \<Rightarrow> cli_context \<Rightarrow> unit task" where
  "startSpinner e ctx p =
     (if showProgress ctx \<and> env_truthy (FORCE_SHOW_SPINNER e) \<and> \<not> json ctx
      then (Resolved (), p\<lparr>spinning := True\<rparr>)
      else (Resolved (), p))"

definition stopSpinner :: "unit task" where
  "stopSpinner p = (Resolved (), p\<lparr>spinning := False\<rparr>)"

definition isApiMode :: "env \<Rightarrow> cli_context \<Rightarrow> bool" where
  "isApiMode e ctx =
     (let envVar = (if env_truthy (SFDX_CONTENT_TYPE e) then SFDX_CONTENT_TYPE e
                    else FORCE_CONTENT_TYPE e)
      in (case envVar of None \<Rightarrow> False | Some v \<Rightarrow> toUpperCase v = ''JSON'')
         \<or> map_of (flags ctx) ''json'' = Some (JBool True))"

subsection \<open>Reporting success\<close>

text \<open>
  \<open>_.get(obj, key)\<close> for a key that is a plain property name, and \<open>_.isEmpty\<close>.
\<close>

definition js_get :: "jsval \<Rightarrow> string \<Rightarrow> jsval" where
  "js_get obj key =
     (case obj of
        JObj kvs \<Rightarrow> (case map_of kvs key of None \<Rightarrow> JUndefined | Some v \<Rightarrow> v)
      | _ \<Rightarrow> JUndefined)"

fun isEmpty :: "jsval \<Rightarrow> bool" where
  "isEmpty (JStr s) = (s = [])"
| "isEmpty (JArr xs) = (xs = [])"
| "isEmpty (JObj kvs) = (kvs = [])"
| "isEmpty v = True"

definition EOL :: string where
  "EOL = [char_of (10 :: nat)]"

fun each_table :: "cmd \<Rightarrow> jsval \<Rightarrow> (string \<times> jsval) list \<Rightarrow> unit task" where
  "each_table c obj [] = resolve ()"
| "each_table c obj ((key, val) # rest) =
     then_task
       (if isEmpty (js_get obj key)
        then (case getMessage ''noResultsFound'' None ''default'' of
                Inl thrown \<Rightarrow> reject thrown
              | Inr m \<Rightarrow>
                  emit (Log (case getEmptyResultMessage c of
                               None \<Rightarrow> m
                             | Some g \<Rightarrow> (case g key of None \<Rightarrow> m | Some m' \<Rightarrow> m'))))
        else then_task (emit (LogTable (js_get obj key) val)) (\<lambda>u. emit (Log EOL)))
       (\<lambda>u. each_table c obj rest)"

definition logSuccess :: "env \<Rightarrow> cmd \<Rightarrow> cli_context \<Rightarrow> jsval \<Rightarrow> unit task" where
  "logSuccess e c ctx obj =
     (if isApiMode e ctx
      then (\<lambda>p. emit (LogJson (case exitCode p of None \<Rightarrow> 0 | Some n \<Rightarrow> n) obj) p)
      else if obj = JArr []
      then (case getMessage ''noResultsFound'' None ''default'' of
              Inl thrown \<Rightarrow> reject thrown
            | Inr m \<Rightarrow> emit (Log m))
      else (case getColumnData c of
              Some (ColTables tables) \<Rightarrow> each_table c obj tables
            | Some (ColFlat cols) \<Rightarrow> emit (LogTable obj cols)
            | None \<Rightarrow>
                (case (case getHumanSuccessMessage c of None \<Rightarrow> None | Some h \<Rightarrow> h obj) of
                   None \<Rightarrow> resolve ()
                 | Some m \<Rightarrow> if m \<noteq> [] then emit (Log m) else resolve ())))"

subsection \<open>Reporting an error\<close>

text \<open>
  \<open>_logError\<close> may assign \<open>err.action\<close>; the task resolves with the error as it is
  afterwards.
\<close>

definition needs_action :: "cli_context \<Rightarrow> js_error \<Rightarrow> bool" where
  "needs_action ctx err =
     ((case org ctx of None \<Rightarrow> False | Some g \<Rightarrow> usingAccessToken g) \<and> action err = None
      \<and> (str_includes (message err) ''Session expired or invalid''
           \<or> str_includes (message err) ''Destination URL not reset''))"

definition attach_action :: "cli_context \<Rightarrow> js_error \<Rightarrow> js_error + js_error" where
  "attach_action ctx err =
     (if needs_action ctx err
      then (case getMessage ''invalidInstanceUrlForAccessTokenAction'' None ''default'' of
              Inl thrown \<Rightarrow> Inl thrown
            | Inr a \<Rightarrow> Inr (err\<lparr>action := Some a\<rparr>))
      else Inr err)"

definition compose_error :: "js_error \<Rightarrow> proc \<Rightarrow> error_object" where
  "compose_error err p =
     ErrorObject (if truthy (rows err) then rows err else JStr (message err))
       (case exitCode p of None \<Rightarrow> 1 | Some n \<Rightarrow> if n = 0 then 1 else n)
       (name err) (action err)"

definition human_message :: "cmd \<Rightarrow> js_error \<Rightarrow> string" where
  "human_message c err =
     (let m = (case getHumanErrorMessage c of
                 None \<Rightarrow> message err
               | Some h \<Rightarrow>
                   (case h err of
                      None \<Rightarrow> message err
                    | Some hm \<Rightarrow> if hm \<noteq> [] then hm else message err))
      in if endsWith m ''.'' then m else m @ ''.'')"

definition logError :: "env \<Rightarrow> cmd \<Rightarrow> cli_context \<Rightarrow> js_error \<Rightarrow> js_error task" where
  "logError e c ctx err0 =
     (case attach_action ctx err0 of
        Inl thrown \<Rightarrow> reject thrown
      | Inr err \<Rightarrow>
          (\<lambda>p. (if isApiMode e ctx
                then then_task (emit (LogJsonError (compose_error err p))) (\<lambda>u. resolve err)
                else then_task
                       (case action err of
                          Some a \<Rightarrow> emit (LogAction (human_message c err) a)
                        | None \<Rightarrow>
                            if truthy (rows err) \<and> truthy (columns err)
                            then emit (LogTable (rows err) (columns err))
                            else emit (LogError (human_message c err)))
                       (\<lambda>u. then_task (emit (LogErrorDebug (compose_error err p)))
                               (\<lambda>u. resolve err))) p))"

subsection \<open>Telemetry and exit as stages\<close>

definition logCommandComplete_task :: "telemetry_env \<Rightarrow> string \<Rightarrow> unit task" where
  "logCommandComplete_task tenv cmdName p =
     (case logCommandComplete tenv cmdName of
        (ev, r) \<Rightarrow>
          ((case r of Inl e \<Rightarrow> Rejected e | Inr u \<Rightarrow> Resolved u), p\<lparr>tele := tele p @ ev\<rparr>))"

text \<open>
  \<open>cmdContext.softExit || process.env.SOFT_EXIT || new Config().getAppConfig().softExit\<close>.
\<close>

definition resolve_softExit :: "env \<Rightarrow> cli_context \<Rightarrow> js_error + jsval" where
  "resolve_softExit e ctx =
     (if truthy (softExit ctx) then Inr (softExit ctx)
      else case SOFT_EXIT e of
             None \<Rightarrow> appConfig_softExit e
           | Some s \<Rightarrow> if s \<noteq> [] then Inr (JStr s) else appConfig_softExit e)"

definition hard_exit :: "env \<Rightarrow> unit task" where
  "hard_exit e p =
     (if logger_isError e
      then (Exited (case exitCode p of None \<Rightarrow> 0 | Some n \<Rightarrow> n), p)
      else (Resolved (), p\<lparr>exit_timers := exit_timers p + 1\<rparr>))"

text \<open>
  \<open>_exit(cmdContext)\<close>. An error of the configuration lookup is thrown on unless it has
  one of three names, in which case \<open>softExit\<close> stays undefined.
\<close>

definition exit :: "env \<Rightarrow> cli_context \<Rightarrow> unit task" where
  "exit e ctx p =
     (let p1 = p\<lparr>exit_calls := exit_calls p + 1\<rparr>
      in case resolve_softExit e ctx of
           Inl thrown \<Rightarrow>
             if name thrown \<noteq> ''InvalidProjectWorkspace'' \<and> name thrown \<noteq> ''SyntaxError''
                \<and> name thrown \<noteq> ''InvalidJsonCasing''
             then (Rejected thrown, p1)
             else hard_exit e p1
         | Inr v \<Rightarrow> if isNil v then hard_exit e p1 else (Resolved (), p1))"

definition set_exitCode :: "nat option \<Rightarrow> unit task" where
  "set_exitCode c p = (Resolved (), p\<lparr>exitCode := c\<rparr>)"

subsection \<open>\<open>_execCommand\<close>\<close>

text \<open>
  The stages before \<open>execute\<close>. The second handler reads \<open>fixedContext.json\<close>, which
  throws when \<open>validate\<close> returned nothing.
\<close>

definition validate_stage :: "cmd \<Rightarrow> cli_context \<Rightarrow> cli_context option task" where
  "validate_stage c ctx =
     (case validate c of None \<Rightarrow> resolve (Some ctx) | Some v \<Rightarrow> run_handler (v ctx))"

definition org_stage :: "cli_context \<Rightarrow> cli_context option \<Rightarrow> jsval task" where
  "org_stage ctx fixedContext =
     (if \<not> requiresWorkspace ctx then resolve JUndefined
      else case org ctx of
             None \<Rightarrow> resolve JUndefined
           | Some g \<Rightarrow>
               if callable g
               then (case fixedContext of
                       None \<Rightarrow> reject (new_TypeError ''Cannot read property json of undefined'')
                     | Some fc \<Rightarrow> if \<not> json fc then of_sum (org_getConfig g) else resolve JUndefined)
               else resolve JUndefined)"

definition preExecute_stage :: "cmd \<Rightarrow> jsval \<Rightarrow> unit task" where
  "preExecute_stage c orgData =
     (case getPreExecuteMessage c of
        None \<Rightarrow> resolve ()
      | Some g \<Rightarrow> if \<not> isNil orgData then emit (Log (g orgData @ EOL)) else resolve ())"

text \<open>
  The handlers of \<open>_execCommand\<close> up to and including the one that calls
  \<open>command.execute(fixedContext || context)\<close>. They are nested here so that
  \<open>fixedContext\<close>, a variable of the enclosing function in the source, stays in scope.
\<close>

definition stages :: "env \<Rightarrow> cmd \<Rightarrow> cli_context \<Rightarrow> jsval task" where
  "stages e c ctx =
     then_task (validate_stage c ctx) (\<lambda>fixedContext.
       then_task (org_stage ctx fixedContext) (\<lambda>orgData.
         then_task (preExecute_stage c orgData) (\<lambda>u.
           then_task (startSpinner e ctx) (\<lambda>u.
             run_handler (execute c (case fixedContext of None \<Rightarrow> ctx | Some fc \<Rightarrow> fc))))))"

text \<open>
  The handlers after \<open>execute\<close>: the success handler, the exit handler, and the
  handler of \<open>.catch\<close>, whose \<open>.finally\<close> sets the exit code and calls \<open>_exit\<close>.
\<close>

definition on_success :: "env \<Rightarrow> telemetry_env \<Rightarrow> string \<Rightarrow> cmd \<Rightarrow> cli_context \<Rightarrow> jsval \<Rightarrow> jsval task" where
  "on_success e tenv cmdName c ctx obj =
     then_task stopSpinner (\<lambda>u.
       then_task (logSuccess e c ctx obj) (\<lambda>u.
         then_task (logCommandComplete_task tenv cmdName) (\<lambda>u. resolve obj)))"

definition on_exit :: "env \<Rightarrow> cli_context \<Rightarrow> jsval \<Rightarrow> jsval task" where
  "on_exit e ctx obj = then_task (exit e ctx) (\<lambda>u. resolve obj)"

definition on_failure :: "env \<Rightarrow> telemetry_env \<Rightarrow> string \<Rightarrow> cmd \<Rightarrow> cli_context \<Rightarrow> js_error \<Rightarrow> jsval task" where
  "on_failure e tenv cmdName c ctx err0 =
     then_task stopSpinner (\<lambda>u.
       then_task (logError e c ctx err0) (\<lambda>err.
         finally_task
           (then_task (logCommandComplete_task tenv cmdName) (\<lambda>u. of_sum (logServerError e err)))
           (then_task (set_exitCode (Some 1)) (\<lambda>u. exit e ctx))))"

text \<open>
  \<open>_execCommand(command, context)\<close>: \<open>process.exitCode = undefined\<close>, then the chain
  \<open>stages.then(on_success).then(on_exit).catch(on_failure).finally(stopSpinner)\<close>.
  The command name is an argument: it only appears in log text.
  \<open>_commandPreFilter\<close> is not exported and nothing calls it: a run of the plugin
  enters the pipeline at \<open>executeCommand\<close>, which is \<open>_execCommand\<close>.
\<close>

definition execCommand :: "env \<Rightarrow> telemetry_env \<Rightarrow> string \<Rightarrow> cmd \<Rightarrow> cli_context \<Rightarrow> jsval task" where
  "execCommand e tenv cmdName c ctx =
     then_task (set_exitCode None) (\<lambda>u.
       finally_task
         (catch_task
            (then_task (then_task (stages e c ctx) (on_success e tenv cmdName c ctx)) (on_exit e ctx))
            (on_failure e tenv cmdName c ctx))
         stopSpinner)"

subsection \<open>The split command (commands/data/data_split.js)\<close>

text \<open>
  \<open>execute\<close> of the command that \<open>run\<close> hands to \<open>executeCommand\<close>:
  \<open>data.split(context)\<close> and then \<open>true\<close>. \<open>path.resolve\<close> throws on a path that is
  not a string. The command leaves \<open>process.exitCode\<close> as it finds it.
\<close>

definition split_execute :: "'r filesystem \<Rightarrow> string \<Rightarrow> cli_context \<Rightarrow> js_error + jsval" where
  "split_execute fs cwd ctx =
     (case map_of (flags ctx) ''dataplan'' of
        Some (JStr p) \<Rightarrow>
          (case splitFiles fs cwd p of Inl thrown \<Rightarrow> Inl thrown | Inr s \<Rightarrow> Inr (JBool True))
      | _ \<Rightarrow> Inl (new_TypeError ''Path must be a string''))"

definition data_split :: "'r filesystem \<Rightarrow> string \<Rightarrow> cmd" where
  "data_split fs cwd =
     \<lparr>validate = None, execute = (\<lambda>ctx code. (split_execute fs cwd ctx, code)),
      getPreExecuteMessage = None,
      getColumnData = None, getEmptyResultMessage = None,
      getHumanSuccessMessage = Some (\<lambda>obj. Some []),
      getHumanErrorMessage = Some (\<lambda>err. Some [])\<rparr>"

section \<open>Notions used to state the properties of the splitter\<close>

text \<open>The loop counter's values: \<open>i, i + chunk, ...\<close> below \<open>j\<close>.\<close>

function offsets :: "nat \<Rightarrow> nat \<Rightarrow> nat list" where
  "offsets i j = (if i < j then i # offsets (i + chunk) j else [])"
  by pat_completeness auto
termination
  by (relation "measure (\<lambda>(i, j). j - i)") (auto simp: chunk_def)

text \<open>Reading a decimal numeral back, to tell chunk names apart.\<close>

definition digit_val :: "char \<Rightarrow> nat" where
  "digit_val c = of_char c - 48"

definition read_nat :: "string \<Rightarrow> nat" where
  "read_nat s = foldl (\<lambda>a c. 10 * a + digit_val c) 0 s"

text \<open>
  Example inputs. \<open>fs_mixed\<close>: one plan entry naming a 3-record file and then a
  201-record file. \<open>fs_two_entries\<close>: two plan entries, each naming one small file.
\<close>

definition fs_mixed :: "nat filesystem" where
  "fs_mixed =
     [''/w/plan.json'' \<mapsto> PlanFile [[''small.json'', ''big.json'']],
      ''/w/small.json'' \<mapsto> DataFile [0..<3],
      ''/w/big.json'' \<mapsto> DataFile [0..<201]]"

definition fs_two_entries :: "nat filesystem" where
  "fs_two_entries =
     [''/w/plan.json'' \<mapsto> PlanFile [[''a.json''], [''b.json'']],
      ''/w/a.json'' \<mapsto> DataFile [0..<3],
      ''/w/b.json'' \<mapsto> DataFile [0..<2]]"

section \<open>Notions used to state the properties of the pipeline\<close>

text \<open>The process state without the telemetry step's own events.\<close>

definition visible :: "proc \<Rightarrow> proc" where
  "visible p = p\<lparr>tele := []\<rparr>"

text \<open>
  Two stages agree when, from states that differ in telemetry events only, they settle
  alike and leave states that differ in telemetry events only.
\<close>

definition agree :: "'a task \<Rightarrow> 'a task \<Rightarrow> bool" where
  "agree m m' =
     (\<forall>p p'. visible p = visible p' \<longrightarrow>
        fst (m p) = fst (m' p') \<and> visible (snd (m p)) = visible (snd (m' p')))"

text \<open>
  A quiet stage neither calls \<open>_exit\<close> nor sets the exit code, and does not end the
  process.
\<close>

definition quiet :: "'a task \<Rightarrow> bool" where
  "quiet m =
     (\<forall>p. exit_calls (snd (m p)) = exit_calls p \<and> exitCode (snd (m p)) = exitCode p \<and>
          (\<forall>c. fst (m p) \<noteq> Exited c))"

text \<open>A calm stage does not call \<open>_exit\<close> and does not end the process.\<close>

definition calm :: "'a task \<Rightarrow> bool" where
  "calm m = (\<forall>p. exit_calls (snd (m p)) = exit_calls p \<and> (\<forall>c. fst (m p) \<noteq> Exited c))"

text \<open>\<open>_exit\<close> returns or ends the process: the configuration lookup does not throw on.\<close>

definition exit_returns :: "env \<Rightarrow> cli_context \<Rightarrow> bool" where
  "exit_returns e ctx =
     (case resolve_softExit e ctx of
        Inl thrown \<Rightarrow> name thrown = ''InvalidProjectWorkspace'' \<or> name thrown = ''SyntaxError''
                       \<or> name thrown = ''InvalidJsonCasing''
      | Inr v \<Rightarrow> True)"

text \<open>\<open>_exit\<close> ends the process at once: no soft exit, and the logger at error level.\<close>

definition exits_at_once :: "env \<Rightarrow> cli_context \<Rightarrow> bool" where
  "exits_at_once e ctx =
     (logger_isError e \<and> (case resolve_softExit e ctx of Inl thrown \<Rightarrow> True | Inr v \<Rightarrow> isNil v))"

text \<open>
  Example inputs. \<open>env_default\<close>: no variable set, no soft exit configured, the logger
  at its default level. \<open>env_soft\<close>: the same under \<open>SOFT_EXIT\<close>. \<open>env_config_fails\<close>:
  the configuration lookup throws an error that \<open>_exit\<close> does not expect.
  \<open>tenv_idle\<close>: a telemetry state inside the current day.
\<close>

definition env_default :: env where
  "env_default =
     \<lparr>SFDX_CONTENT_TYPE = None, FORCE_CONTENT_TYPE = None, FORCE_SHOW_SPINNER = None,
      SOFT_EXIT = None, appConfig_softExit = Inr JUndefined, logger_isError = True,
      logServerError = (\<lambda>err. Inr JUndefined)\<rparr>"

definition env_soft :: env where
  "env_soft = env_default\<lparr>SOFT_EXIT := Some ''true''\<rparr>"

definition env_config_fails :: env where
  "env_config_fails = env_default\<lparr>appConfig_softExit := Inl (new_Error ''EACCES'')\<rparr>"

definition tenv_idle :: telemetry_env where
  "tenv_idle =
     \<lparr>start = None, now = 1000, startOfDay = 0, today = ''20260101'',
      getGlobalConfig = Inr \<lparr>startTime = Some 500\<rparr>, saveGlobalConfig = (\<lambda>c. Inr ()),
      hubOrg_getConfig = Inr ''00D'', analytics_status = 0, analytics_out = Commands [],
      logServerUsages = (\<lambda>us. Inr ())\<rparr>"

definition ctx_plan :: "string \<Rightarrow> cli_context" where
  "ctx_plan p =
     \<lparr>flags = [(''dataplan'', JStr p)], json = False, showProgress = False,
      requiresWorkspace = False, org = None, softExit = JUndefined\<rparr>"

definition ctx_token :: cli_context where
  "ctx_token =
     (ctx_plan ''plan.json'')
       \<lparr>org := Some \<lparr>usingAccessToken = True, callable = False, org_getConfig = Inr JUndefined\<rparr>\<rparr>"

definition proc0 :: proc where
  "proc0 = \<lparr>exitCode = None, spinning = False, out = [], exit_calls = 0, exit_timers = 0, tele = []\<rparr>"

text \<open>A command with no hooks whose \<open>execute\<close> resolves with a given value.\<close>

definition returning :: "jsval \<Rightarrow> cmd" where
  "returning v =
     \<lparr>validate = None, execute = (\<lambda>ctx code. (Inr v, code)), getPreExecuteMessage = None,
      getColumnData = None, getEmptyResultMessage = None,
      getHumanSuccessMessage = None, getHumanErrorMessage = None\<rparr>"

text \<open>A command whose \<open>validate\<close> throws.\<close>

definition invalid :: cmd where
  "invalid =
     (returning JUndefined)\<lparr>validate := Some (\<lambda>ctx code. (Inl (new_Error ''Invalid flags''), code))\<rparr>"

text \<open>A command whose \<open>execute\<close> rejects with a given error.\<close>

definition failing :: "js_error \<Rightarrow> cmd" where
  "failing err = (returning JUndefined)\<lparr>execute := (\<lambda>ctx code. (Inl err, code))\<rparr>"

text \<open>A command whose \<open>execute\<close> sets \<open>process.exitCode\<close> and resolves with a value.\<close>

definition exiting_with :: "jsval \<Rightarrow> nat \<Rightarrow> cmd" where
  "exiting_with v n = (returning v)\<lparr>execute := (\<lambda>ctx code. (Inr v, Some n))\<rparr>"

text \<open>An entry of the analytics feed for the split command.\<close>

definition sample :: "rat \<Rightarrow> analytics_command" where
  "sample r =
     \<lparr>command = ''djc:data:split'', version = ''1.0'', plugin_version = None, runtime = r,
      status = 0\<rparr>"

section \<open>Proofs: the splitter\<close>

declare offsets.simps [simp del] breakup_loop.simps [simp del] show_nat.simps [simp del]

subsection \<open>Counting chunks\<close>

lemma chunk_count_step:
  "i < j \<Longrightarrow> (j - i + 199) div 200 = Suc ((j - (i + 200) + 199) div (200::nat))"
proof (cases "i + 200 \<le> j")
  case True
  define a where "a = j - (i + 200) + 199"
  have "j - i + 199 = a + 200" using True by (simp add: a_def)
  moreover have "(a + 200) div 200 = Suc (a div 200)" by simp
  ultimately show ?thesis by (simp only: a_def)
next
  case False
  assume "i < j"
  with False have z: "j - (i + 200) = 0" and lo: "200 * 1 \<le> j - i + 199"
    and hi: "j - i + 199 < 200 * Suc 1" by simp_all
  have "(j - i + 199) div 200 = 1" using lo hi by (rule div_nat_eqI)
  then show ?thesis by (simp add: z)
qed



lemma breakup_loop_eq:
  "temparray s < length (heap s) \<Longrightarrow>
   breakup_loop d f records i j s =
     s\<lparr>heap := (heap s)[temparray s := heap s ! temparray s @ map (chunk_name f) (offsets i j)],
       writes := writes s @ map (\<lambda>k. (path_join d (chunk_name f k), DataFile (slice records k (k + chunk)))) (offsets i j)\<rparr>"
proof (induction d f records i j s rule: breakup_loop.induct)
  case (1 d f records i j s)
  show ?case
  proof (cases "i < j")
    case True
    let ?s1 = "writeDataFile d (chunk_name f i) (slice records i (i + chunk)) s"
    have t: "temparray ?s1 < length (heap ?s1)"
      using "1.prems" by (simp add: writeDataFile_def writeFile_def push_def Let_def)
    show ?thesis
      using True "1.IH"[OF True t] "1.prems"
      by (subst breakup_loop.simps)
         (simp add: offsets.simps[of i j] writeDataFile_def writeFile_def push_def Let_def)
  next
    case False
    then show ?thesis
      by (subst breakup_loop.simps) (simp add: offsets.simps[of i j])
  qed
qed

lemma upt_Suc_shift: "[0..<Suc m] = 0 # map Suc [0..<m]"
  by (simp only: map_Suc_upt upt_conv_Cons[OF zero_less_Suc])

lemma offsets_eq: "offsets i j = map (\<lambda>k. i + k * chunk) [0..<(j - i + 199) div 200]"
proof (induction i j rule: offsets.induct)
  case (1 i j)
  show ?case
  proof (cases "i < j")
    case True
    define m where "m = (j - (i + 200) + 199) div 200"
    have ih: "offsets (i + chunk) j = map (\<lambda>k. i + chunk + k * chunk) [0..<m]"
      using "1.IH"[OF True] by (simp add: m_def chunk_def)
    have "offsets i j = i # offsets (i + chunk) j"
      using True by (simp add: offsets.simps[of i j])
    also have "\<dots> = map (\<lambda>k. i + k * chunk) (0 # map Suc [0..<m])"
      by (simp add: ih comp_def)
    also have "0 # map Suc [0..<m] = [0..<Suc m]"
      by (simp only: upt_Suc_shift)
    also have "Suc m = (j - i + 199) div 200"
      using chunk_count_step[OF True] by (simp add: m_def)
    finally show ?thesis .
  next
    case False
    then show ?thesis by (simp add: offsets.simps[of i j])
  qed
qed





lemma digit_val_char: "d < 10 \<Longrightarrow> digit_val (digit_char d) = d"
  by (simp add: digit_val_def digit_char_def)

lemma read_show_nat: "read_nat (show_nat n) = n"
proof (induction n rule: show_nat.induct)
  case (1 n)
  show ?case
  proof (cases "n < 10")
    case True
    then show ?thesis by (simp add: show_nat.simps[of n] read_nat_def digit_val_char)
  next
    case False
    then have "read_nat (show_nat (n div 10)) = n div 10" using 1 by simp
    then show ?thesis
      using False by (simp add: show_nat.simps[of n] read_nat_def digit_val_char)
  qed
qed

lemma show_nat_inj: "show_nat a = show_nat b \<Longrightarrow> a = b"
  by (metis read_show_nat)

lemma chunk_name_inj: "chunk_name f a = chunk_name f b \<Longrightarrow> a = b"
  by (auto simp: chunk_name_def Let_def dest: show_nat_inj)

lemma distinct_offsets: "distinct (offsets i j)"
  by (simp add: offsets_eq distinct_map inj_on_def chunk_def)

lemma distinct_chunk_names: "distinct (map (chunk_name f) (offsets i j))"
  by (simp add: distinct_map distinct_offsets inj_on_def) (blast dest: chunk_name_inj)





text \<open>
  Every state of a run keeps \<open>temparray\<close> pointing into the heap; the next theorem asks
  no more of the state.
\<close>

lemma heap_ok_loaded: "temparray (loaded entries) < length (heap (loaded entries))"
  by (simp add: loaded_def)

lemma heap_ok_breakupDataFile:
  assumes "temparray s < length (heap s)" and "breakupDataFile fs d f s = Inr s'"
  shows "temparray s' < length (heap s')"
proof (cases "require_records fs (path_join d f)")
  case (Inl thrown)
  with assms(2) show ?thesis by (simp add: breakupDataFile_def)
next
  case (Inr records)
  show ?thesis
  proof (cases "length records \<le> 200")
    case True
    with assms Inr show ?thesis by (auto simp: breakupDataFile_def push_def)
  next
    case False
    let ?s0 = "(s\<lparr>heap := heap s @ [[]]\<rparr>)\<lparr>temparray := length (heap s)\<rparr>"
    have t0: "temparray ?s0 < length (heap ?s0)" by simp
    from assms(2) Inr False have "s' = breakup_loop d f records 0 (length records) ?s0"
      by (simp add: breakupDataFile_def new_array_def)
    then show ?thesis by (simp add: breakup_loop_eq[OF t0])
  qed
qed

lemma heap_ok_each_file:
  "temparray s < length (heap s) \<Longrightarrow> each_file fs d files s = Inr s' \<Longrightarrow>
     temparray s' < length (heap s')"
proof (induction files arbitrary: s)
  case Nil
  then show ?case by simp
next
  case (Cons f rest)
  then show ?case
    by (cases "breakupDataFile fs d f s") (auto dest: heap_ok_breakupDataFile)
qed

lemma heap_ok_each_entry:
  "temparray s < length (heap s) \<Longrightarrow> each_entry fs filepath d ks s = Inr s' \<Longrightarrow>
     temparray s' < length (heap s')"
proof (induction ks arbitrary: s)
  case Nil
  then show ?case by simp
next
  case (Cons k ks)
  show ?case
  proof (cases "each_file fs d (heap s ! (plan s ! k)) s")
    case (Inl thrown)
    with Cons.prems show ?thesis by simp
  next
    case (Inr s1)
    from heap_ok_each_file[OF Cons.prems(1) Inr] have "temparray s1 < length (heap s1)" .
    then have "temparray (writeFile filepath (stringify_plan (s1\<lparr>plan := (plan s1)[k := temparray s1]\<rparr>)) (s1\<lparr>plan := (plan s1)[k := temparray s1]\<rparr>))
        < length (heap (writeFile filepath (stringify_plan (s1\<lparr>plan := (plan s1)[k := temparray s1]\<rparr>)) (s1\<lparr>plan := (plan s1)[k := temparray s1]\<rparr>)))"
      by (simp add: writeFile_def)
    from Cons.IH[OF this] Cons.prems(2) Inr show ?thesis by (simp add: Let_def)
  qed
qed



subsection \<open>The rewritten manifest\<close>

text \<open>
  C2, at a manifest with one entry whose files are a 3-record file followed by a
  201-record file. The run writes the two chunks of the large file and rewrites the
  entry's list to the two chunk names only: \<open>temparray = []\<close> in the large-file branch
  of \<open>_breakupDataFile\<close> discards the name \<open>small.json\<close> pushed before it, so the
  unchanged small file is missing from the rewritten list.
\<close>

theorem splitFiles_mixed_entry:
  "map_sum name (\<lambda>s. (stringify_plan s, map fst (writes s))) (splitFiles fs_mixed ''/w'' ''plan.json'') =
     Inr (PlanFile [[''big0.json'', ''big200.json'']],
          [''/w/big0.json'', ''/w/big200.json'', ''/w/plan.json''])"
  by code_simp

text \<open>
  C4, at a manifest with two entries that name one small file each. No data file is
  written, but the manifest is: \<open>temparray\<close> is never emptied between entries, and
  \<open>p.files = temparray\<close> stores the shared array, so after the run both entries list
  both files.
\<close>

theorem splitFiles_two_entries:
  "map_sum name (\<lambda>s. (apply_writes fs_two_entries (writes s) ''/w/plan.json'', map fst (writes s)))
     (splitFiles fs_two_entries ''/w'' ''plan.json'') =
     Inr (Some (PlanFile [[''a.json'', ''b.json''], [''a.json'', ''b.json'']]),
          [''/w/plan.json'', ''/w/plan.json''])
   \<and> fs_two_entries ''/w/plan.json'' = Some (PlanFile [[''a.json''], [''b.json'']])"
  by code_simp

subsection \<open>A manifest that does not exist\<close>

text \<open>
  C3, at a manifest path that does not exist. \<open>_splitFiles\<close> looks the message
  \<open>dataSplitFileNotFound\<close> up and hands the text to \<open>pluginError\<close> as if it were the
  key; the second lookup finds no such label in the default bundle and throws. What
  reaches the caller is that plain \<open>Error\<close>: its name is not a name of the
  \<open>PluginErrors\<close> table and its message is not the catalogue text. The pipeline
  reports it, sets the exit code to 1 and, in the default environment, ends the process
  with code 1; the telemetry step adds nothing to the output.
\<close>

theorem splitFiles_missing_manifest:
  "(case splitFiles fs_mixed ''/w'' ''nothere.json'' of
      Inl err \<Rightarrow>
        name err = ''Error'' \<and>
        message err = util_format None [''default'', ''Could not find specified file'', ''en_US''] \<and>
        message err \<noteq> ''Could not find specified file''
    | Inr s \<Rightarrow> False) \<and>
   fst (execCommand env_default tenv_idle ''split'' (data_split fs_mixed ''/w'')
          (ctx_plan ''nothere.json'') proc0) = Exited 1 \<and>
   exitCode (snd (execCommand env_default tenv_idle ''split'' (data_split fs_mixed ''/w'')
          (ctx_plan ''nothere.json'') proc0)) = Some 1 \<and>
   exit_calls (snd (execCommand env_default tenv_idle ''split'' (data_split fs_mixed ''/w'')
          (ctx_plan ''nothere.json'') proc0)) = 1"
  by code_simp

section \<open>Proofs: telemetry\<close>

subsection \<open>Telemetry failures are swallowed\<close>

lemma visible_eq_iff:
  "(visible p = visible p') =
     (exitCode p = exitCode p' \<and> spinning p = spinning p' \<and> out p = out p' \<and>
      exit_calls p = exit_calls p' \<and> exit_timers p = exit_timers p')"
  by (cases p; cases p') (simp add: visible_def)

lemma agreeI:
  "(\<And>p p'. visible p = visible p' \<Longrightarrow>
      fst (m p) = fst (m' p') \<and> visible (snd (m p)) = visible (snd (m' p'))) \<Longrightarrow> agree m m'"
  by (simp add: agree_def)

lemma agreeD:
  "agree m m' \<Longrightarrow> visible p = visible p' \<Longrightarrow>
     fst (m p) = fst (m' p') \<and> visible (snd (m p)) = visible (snd (m' p'))"
  by (simp add: agree_def)

lemma agree_then:
  assumes "agree m m'" and "\<And>v. agree (f v) (f' v)"
  shows "agree (then_task m f) (then_task m' f')"
proof (rule agreeI)
  fix p p' assume v: "visible p = visible p'"
  obtain r q where mp: "m p = (r, q)" by (cases "m p")
  obtain r' q' where mp': "m' p' = (r', q')" by (cases "m' p'")
  from agreeD[OF assms(1) v] mp mp' have rr: "r' = r" and qq: "visible q = visible q'" by simp_all
  show "fst (then_task m f p) = fst (then_task m' f' p') \<and>
        visible (snd (then_task m f p)) = visible (snd (then_task m' f' p'))"
    using agreeD[OF assms(2) qq] qq
    by (cases r) (simp_all add: then_task_def mp mp' rr)
qed

lemma agree_catch:
  assumes "agree m m'" and "\<And>v. agree (h v) (h' v)"
  shows "agree (catch_task m h) (catch_task m' h')"
proof (rule agreeI)
  fix p p' assume v: "visible p = visible p'"
  obtain r q where mp: "m p = (r, q)" by (cases "m p")
  obtain r' q' where mp': "m' p' = (r', q')" by (cases "m' p'")
  from agreeD[OF assms(1) v] mp mp' have rr: "r' = r" and qq: "visible q = visible q'" by simp_all
  show "fst (catch_task m h p) = fst (catch_task m' h' p') \<and>
        visible (snd (catch_task m h p)) = visible (snd (catch_task m' h' p'))"
    using agreeD[OF assms(2) qq] qq
    by (cases r) (simp_all add: catch_task_def mp mp' rr)
qed

lemma agree_finally:
  assumes "agree m m'" and "agree h h'"
  shows "agree (finally_task m h) (finally_task m' h')"
proof (rule agreeI)
  fix p p' assume v: "visible p = visible p'"
  obtain r q where mp: "m p = (r, q)" by (cases "m p")
  obtain r' q' where mp': "m' p' = (r', q')" by (cases "m' p'")
  from agreeD[OF assms(1) v] mp mp' have rr: "r' = r" and qq: "visible q = visible q'" by simp_all
  obtain s t where hq: "h q = (s, t)" by (cases "h q")
  obtain s' t' where hq': "h' q' = (s', t')" by (cases "h' q'")
  from agreeD[OF assms(2) qq] hq hq' have ss: "s' = s" and tt: "visible t = visible t'" by simp_all
  show "fst (finally_task m h p) = fst (finally_task m' h' p') \<and>
        visible (snd (finally_task m h p)) = visible (snd (finally_task m' h' p'))"
    using qq tt
    by (cases r; cases s) (simp_all add: finally_task_def mp mp' rr hq hq' ss)
qed

lemma agree_resolve: "agree (resolve v) (resolve v)"
  by (simp add: agree_def resolve_def)

lemma agree_reject: "agree (reject e) (reject e)"
  by (simp add: agree_def reject_def)

lemma agree_of_sum: "agree (of_sum r) (of_sum r)"
  by (cases r) (simp_all add: of_sum_def agree_resolve agree_reject)

lemma agree_emit: "agree (emit x) (emit x)"
  by (simp add: agree_def emit_def visible_eq_iff)

lemma agree_set_exitCode: "agree (set_exitCode c) (set_exitCode c)"
  by (simp add: agree_def set_exitCode_def visible_eq_iff)

lemma agree_stopSpinner: "agree stopSpinner stopSpinner"
  by (simp add: agree_def stopSpinner_def visible_eq_iff)

lemma agree_startSpinner: "agree (startSpinner e ctx) (startSpinner e ctx)"
  by (auto simp: agree_def startSpinner_def visible_eq_iff)

lemma agree_exit: "agree (exit e ctx) (exit e ctx)"
  by (simp add: agree_def exit_def hard_exit_def visible_eq_iff Let_def split: sum.split)

lemma agree_telemetry:
  "agree (logCommandComplete_task tenv cmdName) (logCommandComplete_task tenv' cmdName')"
  by (simp add: agree_def logCommandComplete_task_def logCommandComplete_def swallow_def
      visible_eq_iff Let_def split: sum.split prod.split)

lemmas agree_intros = agree_then agree_catch agree_finally agree_resolve agree_reject agree_of_sum
  agree_emit agree_set_exitCode agree_stopSpinner agree_startSpinner agree_exit agree_telemetry

lemma agree_each_table: "agree (each_table c obj tables) (each_table c obj tables)"
  by (induction tables) (auto intro!: agree_intros split: sum.split option.split)

lemma agree_logSuccess: "agree (logSuccess e c ctx obj) (logSuccess e c ctx obj)"
proof (cases "isApiMode e ctx")
  case True
  then show ?thesis by (simp add: logSuccess_def agree_def emit_def visible_eq_iff)
next
  case False
  then show ?thesis
    by (auto simp: logSuccess_def intro!: agree_intros agree_each_table
        split: sum.split option.split coldata.split)
qed

lemma agree_logError: "agree (logError e c ctx err) (logError e c ctx err)"
proof (cases "attach_action ctx err")
  case (Inl thrown)
  then show ?thesis by (simp add: logError_def agree_reject)
next
  case (Inr err1)
  then show ?thesis
    by (auto simp: logError_def agree_def then_task_def emit_def resolve_def compose_error_def
        visible_eq_iff split: option.split)
qed

lemma agree_run_handler: "agree (run_handler h) (run_handler h)"
  by (auto simp: agree_def run_handler_def visible_eq_iff split: prod.split sum.split)

lemma agree_stages: "agree (stages e c ctx) (stages e c ctx)"
  by (auto simp: stages_def validate_stage_def org_stage_def preExecute_stage_def
      intro!: agree_intros agree_run_handler split: option.split)

lemma agree_execCommand:
  "agree (execCommand e tenv cmdName c ctx) (execCommand e tenv' cmdName c ctx)"
  unfolding execCommand_def on_success_def on_exit_def on_failure_def
  by (intro agree_intros agree_stages agree_logSuccess agree_logError)

text \<open>
  C6. For every telemetry environment (every way the persisted-state load and save,
  the hub organisation lookup, the analytics pull, the aggregation and the server
  submission can fail), the promise \<open>_logCommandComplete\<close> returns resolves. And the
  telemetry environment has no influence on the command's outcome: two runs of
  \<open>_execCommand\<close> that differ only in it settle alike, with the same exit code, output,
  spinner state and exit calls.
\<close>

theorem telemetry_swallowed:
  "snd (logCommandComplete tenv cmdName) = Inr () \<and>
   fst (logCommandComplete_task tenv cmdName p) = Resolved () \<and>
   fst (execCommand e tenv cmdName c ctx p) = fst (execCommand e tenv' cmdName c ctx p) \<and>
   visible (snd (execCommand e tenv cmdName c ctx p)) = visible (snd (execCommand e tenv' cmdName c ctx p))"
proof -
  have a: "snd (logCommandComplete tenv cmdName) = Inr ()"
    by (simp add: logCommandComplete_def swallow_def Let_def split: sum.split prod.split)
  then have b: "fst (logCommandComplete_task tenv cmdName p) = Resolved ()"
    by (cases "logCommandComplete tenv cmdName") (simp add: logCommandComplete_task_def)
  from agreeD[OF agree_execCommand refl] a b show ?thesis by blast
qed

subsection \<open>Doubles: integers are exact, and a rounded quotient rounds like the exact one\<close>

lemma rhe_upper: "of_int (round_half_even y) \<le> y + 1 / 2"
  by (auto simp: round_half_even_def Let_def) linarith+

lemma rhe_lower: "y - 1 / 2 \<le> of_int (round_half_even y)"
  by (auto simp: round_half_even_def Let_def) linarith+

lemma rhe_of_int: "round_half_even (of_int k) = k"
  by (simp add: round_half_even_def)

lemma two_powi_pos: "0 < (2::rat) powi e"
  by simp

lemma two_powi_less: "(2::rat) powi a < 2 powi b \<Longrightarrow> a < b"
  by (metis linorder_not_less one_le_numeral power_int_increasing)

lemma expo_bounds:
  assumes "x \<noteq> 0"
  shows "2 powi expo x \<le> \<bar>x\<bar> \<and> \<bar>x\<bar> < 2 powi (expo x + 1)"
proof -
  obtain p q where pq: "quotient_of \<bar>x\<bar> = (p, q)" by (cases "quotient_of \<bar>x\<bar>")
  then have q: "0 < q" and x: "\<bar>x\<bar> = of_int p / of_int q"
    by (auto dest: quotient_of_denom_pos quotient_of_div)
  have "0 < \<bar>x\<bar>" using assms by simp
  then have "(0::rat) < of_int p / of_int q" by (simp only: x)
  with q have p: "0 < p" by (simp add: zero_less_divide_iff)
  define bp bq where "bp = bitlen p" and "bq = bitlen q"
  from bitlen_bounds[OF p] have p1: "2 ^ nat (bp - 1) \<le> p" and p2: "p < 2 ^ nat bp"
    by (simp_all add: bp_def)
  from bitlen_bounds[OF q] have q1: "2 ^ nat (bq - 1) \<le> q" and q2: "q < 2 ^ nat bq"
    by (simp_all add: bq_def)
  have bp1: "1 \<le> bp" using p bitlen_eq_zero_iff[of p] bitlen_nonneg[of p] by (simp add: bp_def)
  have bq1: "1 \<le> bq" using q bitlen_eq_zero_iff[of q] bitlen_nonneg[of q] by (simp add: bq_def)
  have P1: "(2::rat) powi (bp - 1) \<le> of_int p"
  proof -
    have "(of_int (2 ^ nat (bp - 1)) :: rat) \<le> of_int p" using p1 by (simp only: of_int_le_iff)
    then show ?thesis using bp1 by (simp add: power_int_def)
  qed
  have P2: "of_int p < (2::rat) powi bp"
  proof -
    have "(of_int p :: rat) < of_int (2 ^ nat bp)" using p2 by (simp only: of_int_less_iff)
    then show ?thesis using bp1 by (simp add: power_int_def)
  qed
  have Q1: "(2::rat) powi (bq - 1) \<le> of_int q"
  proof -
    have "(of_int (2 ^ nat (bq - 1)) :: rat) \<le> of_int q" using q1 by (simp only: of_int_le_iff)
    then show ?thesis using bq1 by (simp add: power_int_def)
  qed
  have Q2: "of_int q < (2::rat) powi bq"
  proof -
    have "(of_int q :: rat) < of_int (2 ^ nat bq)" using q2 by (simp only: of_int_less_iff)
    then show ?thesis using bq1 by (simp add: power_int_def)
  qed
  have qpos: "(0::rat) < of_int q" using q by simp
  have up: "\<bar>x\<bar> < 2 powi (bp - bq + 1)"
  proof -
    have "of_int p < (2::rat) powi (bp - bq + 1) * 2 powi (bq - 1)"
      using P2 by (simp flip: power_int_add)
    also have "\<dots> \<le> 2 powi (bp - bq + 1) * of_int q"
      using Q1 by (simp add: mult_left_mono)
    finally show ?thesis using qpos by (simp add: x pos_divide_less_eq)
  qed
  have lo: "2 powi (bp - bq - 1) < \<bar>x\<bar>"
  proof -
    have "(2::rat) powi (bp - bq - 1) * of_int q < 2 powi (bp - bq - 1) * 2 powi bq"
      using Q2 by (simp add: mult_strict_left_mono)
    also have "\<dots> = 2 powi (bp - 1)" by (simp flip: power_int_add)
    also have "\<dots> \<le> of_int p" by (rule P1)
    finally show ?thesis using qpos by (simp add: x pos_less_divide_eq)
  qed
  show ?thesis
  proof (cases "2 powi (bp - bq) \<le> \<bar>x\<bar>")
    case True
    then have "expo x = bp - bq" by (simp add: expo_def pq bp_def bq_def)
    with True up show ?thesis by simp
  next
    case False
    then have "expo x = bp - bq - 1" by (simp add: expo_def pq bp_def bq_def)
    with False lo show ?thesis by simp
  qed
qed

lemma expo_less: "x \<noteq> 0 \<Longrightarrow> \<bar>x\<bar> < 2 powi b \<Longrightarrow> expo x < b"
  using expo_bounds[of x] two_powi_less[of "expo x" b] by linarith

lemma expo_ge: "x \<noteq> 0 \<Longrightarrow> 2 powi b \<le> \<bar>x\<bar> \<Longrightarrow> b \<le> expo x"
  using expo_bounds[of x] two_powi_less[of b "expo x + 1"] by linarith




lemma ulp_inverse_power:
  assumes "- 1022 \<le> expo x" and "expo x \<le> 52"
  shows "ulp x = 1 / 2 ^ nat (52 - expo x)"
proof -
  have "ulp x = 2 powi (- int (nat (52 - expo x)))"
    using assms by (simp add: ulp_def max_def)
  also have "\<dots> = 1 / 2 ^ nat (52 - expo x)"
    by (simp only: power_int_minus_divide power_int_of_nat)
  finally show ?thesis .
qed

lemma to_double_of_int:
  assumes "\<bar>z\<bar> < 2 ^ 53"
  shows "to_double (of_int z) = Finite (of_int z)"
proof (cases "z = 0")
  case True
  then show ?thesis by (simp add: to_double_def)
next
  case False
  let ?x = "of_int z :: rat"
  have nz: "?x \<noteq> 0" using False by simp
  have "(2::rat) powi 0 \<le> \<bar>?x\<bar>"
  proof -
    from False have "1 \<le> \<bar>z\<bar>" by linarith
    then have "(of_int 1 :: rat) \<le> of_int \<bar>z\<bar>" by (simp only: of_int_le_iff)
    then show ?thesis by simp
  qed
  from expo_ge[OF nz this] have e0: "0 \<le> expo ?x" .
  have "\<bar>?x\<bar> < 2 powi 53"
  proof -
    have "(of_int \<bar>z\<bar> :: rat) < of_int (2 ^ 53)" using assms by (simp only: of_int_less_iff)
    then show ?thesis by simp
  qed
  from expo_less[OF nz this] have e1: "expo ?x \<le> 52" by simp
  define j where "j = nat (52 - expo ?x)"
  have u: "ulp ?x = 1 / 2 ^ j"
    unfolding j_def using e0 e1 by (intro ulp_inverse_power) simp_all
  have q: "?x / ulp ?x = of_int (z * 2 ^ j)" by (simp add: u)
  have r: "of_int (round_half_even (?x / ulp ?x)) * ulp ?x = ?x"
    by (simp only: q rhe_of_int) (simp add: u)
  have "\<bar>?x\<bar> < 2 powi 1024"
    using \<open>\<bar>?x\<bar> < 2 powi 53\<close> by (rule less_trans) simp
  then show ?thesis
    using nz by (simp only: to_double_def r Let_def) simp
qed


lemma round_bounds: "of_int (round x) - 1 / 2 \<le> x \<and> x < of_int (round x) + 1 / 2" for x :: rat
  unfolding round_def by linarith

lemma round_eqI: "of_int k - 1 / 2 \<le> x \<Longrightarrow> x < of_int k + 1 / 2 \<Longrightarrow> round x = k" for x :: rat
  unfolding round_def by linarith

lemma to_double_quotient:
  assumes A: "\<bar>A\<bar> < 2 ^ 52" and m0: "0 < m" and m1: "m \<le> 2 ^ 52"
  shows "\<exists>r. to_double (of_int A / of_int m) = Finite r \<and>
             round r = round (of_int A / of_int m :: rat)"
proof (cases "A = 0")
  case True
  then show ?thesis by (simp add: to_double_def)
next
  case False
  define x :: rat where "x = of_int A / of_int m"
  have mpos: "(0::rat) < of_int m" using m0 by simp
  have nz: "x \<noteq> 0" using False m0 by (simp add: x_def)
  have absx: "\<bar>x\<bar> = of_int \<bar>A\<bar> / of_int m" using m0 by (simp add: x_def)
  have A1: "(1::rat) \<le> of_int \<bar>A\<bar>"
  proof -
    from False have "1 \<le> \<bar>A\<bar>" by linarith
    then have "(of_int 1 :: rat) \<le> of_int \<bar>A\<bar>" by (simp only: of_int_le_iff)
    then show ?thesis by simp
  qed
  have A2: "(of_int \<bar>A\<bar> :: rat) < 2 ^ 52"
  proof -
    have "(of_int \<bar>A\<bar> :: rat) < of_int (2 ^ 52)" using A by (simp only: of_int_less_iff)
    then show ?thesis by simp
  qed
  have M1: "(1::rat) \<le> of_int m"
  proof -
    from m0 have "1 \<le> m" by linarith
    then have "(of_int 1 :: rat) \<le> of_int m" by (simp only: of_int_le_iff)
    then show ?thesis by simp
  qed
  have M2: "(of_int m :: rat) \<le> 2 ^ 52"
  proof -
    have "(of_int m :: rat) \<le> of_int (2 ^ 52)" using m1 by (simp only: of_int_le_iff)
    then show ?thesis by simp
  qed
  have xlt: "\<bar>x\<bar> < 2 ^ 52"
  proof -
    have "of_int \<bar>A\<bar> / of_int m \<le> (of_int \<bar>A\<bar> :: rat)"
      using M1 A1 by (simp add: pos_divide_le_eq mpos mult_le_cancel_left1)
    with A2 show ?thesis by (simp add: absx)
  qed
  have xge: "1 / 2 ^ 52 \<le> \<bar>x\<bar>"
  proof -
    have "1 / 2 ^ 52 \<le> 1 / (of_int m :: rat)"
      using M2 mpos by (simp add: frac_le)
    also have "\<dots> \<le> of_int \<bar>A\<bar> / of_int m"
      using A1 mpos by (simp add: divide_right_mono)
    finally show ?thesis by (simp add: absx)
  qed
  have "\<bar>x\<bar> < 2 powi 52" using xlt by simp
  from expo_less[OF nz this] have e1: "expo x \<le> 51" by simp
  have "(2::rat) powi (- 52) \<le> \<bar>x\<bar>"
    using xge by (simp add: power_int_minus_divide)
  from expo_ge[OF nz this] have e0: "- 52 \<le> expo x" .
  define j where "j = nat (52 - expo x)"
  have j1: "1 \<le> j" using e1 by (simp add: j_def)
  have u: "ulp x = 1 / 2 ^ j"
    unfolding j_def using e0 e1 by (intro ulp_inverse_power) simp_all
  define H :: int where "H = 2 ^ (j - 1)"
  define P :: rat where "P = 2 ^ j"
  have Hpos: "0 < H" by (simp add: H_def)
  have PH: "P = 2 * of_int H"
    using j1 by (simp add: P_def H_def flip: power_Suc)
  have Ppos: "0 < P" by (simp add: P_def)
  \<comment> \<open>the divisor is below the grid's density\<close>
  have mP: "of_int m < P"
  proof -
    from expo_bounds[OF nz] have "2 powi expo x \<le> \<bar>x\<bar>" by simp
    then have "2 powi expo x * of_int m \<le> (of_int \<bar>A\<bar> :: rat)"
      using mpos by (simp add: absx pos_le_divide_eq)
    with A2 have "2 powi expo x * of_int m < (2::rat) powi 52" by simp
    also have "(2::rat) powi 52 = 2 powi expo x * 2 powi (int j)"
      using e1 by (simp add: j_def flip: power_int_add)
    finally have "of_int m < (2::rat) powi (int j)"
      by (simp add: mult_less_cancel_left_pos)
    then show ?thesis by (simp add: P_def)
  qed
  define R where "R = round_half_even (x / ulp x)"
  define r :: rat where "r = of_int R * ulp x"
  have X: "x / ulp x = x * P" by (simp add: u P_def)
  have Rup: "of_int R \<le> x * P + 1 / 2" using rhe_upper[of "x * P"] by (simp add: R_def X)
  have Rlo: "x * P - 1 / 2 \<le> of_int R" using rhe_lower[of "x * P"] by (simp add: R_def X)
  have rP: "r = of_int R / P" by (simp add: r_def u P_def)
  define K where "K = round x"
  from round_bounds[of x] have Klo: "of_int K - 1 / 2 \<le> x" and Kup: "x < of_int K + 1 / 2"
    by (simp_all add: K_def)
  \<comment> \<open>lower boundary\<close>
  have lower: "of_int K - 1 / 2 \<le> r"
  proof -
    have "(of_int K - 1 / 2) * P \<le> x * P" using Klo Ppos by (simp add: mult_right_mono)
    moreover have "(of_int K - 1 / 2) * P = of_int ((2 * K - 1) * H)"
      by (simp add: PH algebra_simps)
    ultimately have "of_int ((2 * K - 1) * H) - 1 / 2 \<le> (of_int R :: rat)" using Rlo by linarith
    then have "(of_int ((2 * K - 1) * H - 1) :: rat) < of_int R" by simp
    then have "(2 * K - 1) * H - 1 < R" by (simp only: of_int_less_iff)
    then have "(2 * K - 1) * H \<le> R" by simp
    then have "(of_int ((2 * K - 1) * H) :: rat) \<le> of_int R" by (simp only: of_int_le_iff)
    then have "(of_int K - 1 / 2) * P \<le> of_int R"
      using \<open>(of_int K - 1 / 2) * P = of_int ((2 * K - 1) * H)\<close> by simp
    then show ?thesis using Ppos by (simp add: rP pos_le_divide_eq)
  qed
  \<comment> \<open>upper boundary\<close>
  have upper: "r < of_int K + 1 / 2"
  proof -
    define N where "N = m * (2 * K + 1) - 2 * A"
    have "of_int N = 2 * of_int m * (of_int K + 1 / 2 - x)"
      using m0 by (simp add: N_def x_def field_simps)
    moreover have "0 < 2 * of_int m * (of_int K + 1 / 2 - x)" using Kup mpos by simp
    ultimately have "(0::rat) < of_int N" by simp
    then have "1 \<le> N" by simp
    then have "(of_int 1 :: rat) \<le> of_int N" by (simp only: of_int_le_iff)
    then have "(1::rat) \<le> of_int N" by simp
    then have gap: "1 \<le> 2 * of_int m * (of_int K + 1 / 2 - x)"
      using \<open>of_int N = 2 * of_int m * (of_int K + 1 / 2 - x)\<close> by simp
    have "of_int m * (of_int K + 1 / 2 - x) < P * (of_int K + 1 / 2 - x)"
      using mP Kup by (simp add: mult_strict_right_mono)
    with gap have "1 / 2 < P * (of_int K + 1 / 2 - x)" by linarith
    then have "x * P + 1 / 2 < (of_int K + 1 / 2) * P" by (simp add: algebra_simps)
    with Rup have "of_int R < (of_int K + 1 / 2) * P" by linarith
    then show ?thesis using Ppos by (simp add: rP pos_divide_less_eq)
  qed
  have rr: "round r = K" using lower upper by (rule round_eqI)
  have fin: "\<bar>r\<bar> < 2 powi 1024"
  proof -
    from round_bounds[of x] xlt have "\<bar>of_int K :: rat\<bar> \<le> 2 ^ 52 + 1 / 2"
      unfolding K_def by linarith
    with lower upper have "\<bar>r\<bar> \<le> 2 ^ 52 + 1" by linarith
    also have "\<dots> < (2::rat) powi 1024" by simp
    finally show ?thesis .
  qed
  have "to_double x = Finite r"
    using nz fin by (simp add: to_double_def Let_def r_def R_def)
  with rr show ?thesis by (auto simp: x_def K_def)
qed

lemma to_double_at:
  assumes "x \<noteq> 0" and "2 powi e \<le> \<bar>x\<bar>" and "\<bar>x\<bar> < 2 powi (e + 1)" and "- 1022 \<le> e"
    and "round_half_even (x / 2 powi (e - 52)) = R"
    and "\<bar>of_int R * 2 powi (e - 52)\<bar> < (2::rat) powi 1024"
  shows "to_double x = Finite (of_int R * 2 powi (e - 52))"
proof -
  from expo_ge[OF assms(1,2)] expo_less[OF assms(1,3)] have "expo x = e" by simp
  then have "ulp x = 2 powi (e - 52)" using assms(4) by (simp add: ulp_def max_def)
  then show ?thesis using assms(1,5,6) by (simp add: to_double_def Let_def)
qed

lemma to_double_2_53: "to_double (2 ^ 53) = Finite (2 ^ 53)"
proof -
  have "(2 ^ 53 / 2 powi (53 - 52) :: rat) = of_int (2 ^ 52)" by simp
  then have R: "round_half_even (2 ^ 53 / 2 powi (53 - 52)) = 2 ^ 52"
    by (simp only: rhe_of_int)
  have "to_double (2 ^ 53) = Finite (of_int (2 ^ 52) * 2 powi (53 - 52))"
    by (rule to_double_at[OF _ _ _ _ R]) simp_all
  then show ?thesis by simp
qed

lemma to_double_2_53_1: "to_double (1 + 2 ^ 53) = Finite (2 ^ 53)"
proof -
  have f: "\<lfloor>(9007199254740993::rat) / 2\<rfloor> = 4503599627370496"
    by (rule floor_unique) simp_all
  have R: "round_half_even ((1 + 2 ^ 53) / 2 powi (53 - 52)) = 2 ^ 52"
    by (simp add: round_half_even_def Let_def f)
  have "to_double (1 + 2 ^ 53) = Finite (of_int (2 ^ 52) * 2 powi (53 - 52))"
    by (rule to_double_at[OF _ _ _ _ R]) simp_all
  then show ?thesis by simp
qed

lemma to_double_small:
  "to_double 0 = Finite 0" "to_double 1 = Finite 1" "to_double 2 = Finite 2"
  "to_double 4503599627370496 = Finite 4503599627370496"
  "to_double 9007199254740992 = Finite 9007199254740992"
  "to_double 9007199254740993 = Finite 9007199254740992"
  using to_double_of_int[of 0] to_double_of_int[of 1] to_double_of_int[of 2]
    to_double_of_int[of "2 ^ 52"] to_double_2_53 to_double_2_53_1
  by simp_all

lemma magnitude_facts:
  assumes "\<bar>t\<bar> + \<bar>a\<bar> * int n < 2 ^ 52" and "n < 2 ^ 52"
  shows "\<bar>a * int n\<bar> < 2 ^ 53" "\<bar>t\<bar> < 2 ^ 53" "\<bar>t + a * int n\<bar> < 2 ^ 52"
    "\<bar>int n + 1\<bar> < 2 ^ 53" "int n + 1 \<le> 2 ^ 52"
proof -
  have m: "\<bar>a * int n\<bar> = \<bar>a\<bar> * int n" by (simp add: abs_mult)
  have nn: "0 \<le> \<bar>a\<bar> * int n" by simp
  have p: "(2::int) ^ 53 = 2 * 2 ^ 52" "0 < (2::int) ^ 52" by simp_all
  show "\<bar>a * int n\<bar> < 2 ^ 53" using assms(1) m p by linarith
  show "\<bar>t\<bar> < 2 ^ 53" using assms(1) nn p by linarith
  have "\<bar>t + a * int n\<bar> \<le> \<bar>t\<bar> + \<bar>a * int n\<bar>" by (rule abs_triangle_ineq)
  then show "\<bar>t + a * int n\<bar> < 2 ^ 52" using assms(1) m by linarith
  have "int n < int (2 ^ 52)" using assms(2) by (simp only: of_nat_less_iff)
  then have "int n < 2 ^ 52" by simp
  then show "\<bar>int n + 1\<bar> < 2 ^ 53" "int n + 1 \<le> 2 ^ 52" using p by linarith+
qed

subsection \<open>The running average\<close>

lemma map_of_put: "map_of (put k u xs) k = Some u"
  by (induction xs) auto

lemma average_step:
  assumes "\<bar>t\<bar> + \<bar>a\<bar> * int n < 2 ^ 52" and "n < 2 ^ 52"
  shows "d_round (d_div (d_add (to_double (of_int t)) (d_mul (Finite (of_int a)) (Finite (of_nat n))))
                        (d_add (Finite (of_nat n)) (Finite 1))) =
           Finite (of_int (round ((of_int t + of_int a * of_nat n) / of_nat (n + 1) :: rat)))"
    and "d_add (Finite (of_nat n)) (Finite 1) = Finite (of_nat (n + 1))"
proof -
  note an = magnitude_facts(1)[OF assms] and tt = magnitude_facts(2)[OF assms]
    and s = magnitude_facts(3)[OF assms] and n1 = magnitude_facts(4)[OF assms]
    and m1 = magnitude_facts(5)[OF assms]
  have prod: "d_mul (Finite (of_int a)) (Finite (of_nat n)) = Finite (of_int (a * int n))"
    using to_double_of_int[OF an] by simp
  have rt: "to_double (of_int t) = Finite (of_int t)"
    by (rule to_double_of_int[OF tt])
  have "(2::int) ^ 52 < 2 ^ 53" by simp
  with s have s53: "\<bar>t + a * int n\<bar> < 2 ^ 53" by linarith
  have sum: "d_add (Finite (of_int t)) (Finite (of_int (a * int n))) = Finite (of_int (t + a * int n))"
    using to_double_of_int[OF s53] by simp
  show cnt: "d_add (Finite (of_nat n)) (Finite 1) = Finite (of_nat (n + 1))"
    using to_double_of_int[OF n1] by (simp add: add.commute)
  from to_double_quotient[OF s _ m1] obtain r where
    q: "to_double (of_int (t + a * int n) / of_int (int n + 1)) = Finite r"
    and rr: "round r = round (of_int (t + a * int n) / of_int (int n + 1) :: rat)"
    by auto
  have nz: "(of_nat (n + 1) :: rat) \<noteq> 0" by simp
  have eq: "(of_int (t + a * int n) / of_int (int n + 1) :: rat) =
            (of_int t + of_int a * of_nat n) / of_nat (n + 1)"
    by (simp add: add.commute)
  have dv: "d_div (Finite (of_int (t + a * int n))) (Finite (of_nat (n + 1))) = Finite r"
    using q nz unfolding eq by (simp add: add.commute)
  show "d_round (d_div (d_add (to_double (of_int t)) (d_mul (Finite (of_int a)) (Finite (of_nat n))))
                        (d_add (Finite (of_nat n)) (Finite 1))) =
           Finite (of_int (round ((of_int t + of_int a * of_nat n) / of_nat (n + 1) :: rat)))"
    unfolding prod rt sum cnt dv using rr unfolding eq by simp
qed

text \<open>
  C7, as amended. Recording an integer runtime \<open>t\<close> for a command key whose usage
  record has \<open>n\<close> executions and the integer average \<open>a\<close> (a key seen for the first
  time starts at \<open>n = 0\<close>, \<open>a = 0\<close>): if \<open>n < 2^52\<close> and \<open>|t| + |a| * n < 2^52\<close>, the
  new average is \<open>round ((t + a * n) / (n + 1))\<close>, a half rounded up, with \<open>n\<close> the
  count before the increment, and the new count is \<open>n + 1\<close>.
\<close>

theorem record_usage_average:
  assumes "case map_of usages (commandKey c) of
             None \<Rightarrow> n = 0 \<and> a = 0
           | Some u \<Rightarrow> totalExecutions u = Finite (of_nat n) \<and> avgRuntime u = Finite (of_int a)"
    and "runtime c = of_int t"
    and "\<bar>t\<bar> + \<bar>a\<bar> * int n < 2 ^ 52" and "n < 2 ^ 52"
  shows "\<exists>u'. map_of (record_usage orgId day usages c) (commandKey c) = Some u' \<and>
           avgRuntime u' =
             Finite (of_int (round ((of_int t + of_int a * of_nat n) / of_nat (n + 1) :: rat))) \<and>
           totalExecutions u' = Finite (of_nat (n + 1))"
proof -
  note st = average_step[OF assms(3,4)]
  show ?thesis
  proof (cases "map_of usages (commandKey c)")
    case None
    with assms(1) have "n = 0" "a = 0" by simp_all
    with st None show ?thesis
      by (simp add: record_usage_def Let_def map_of_put new_usage_def parsed_runtime_def assms(2))
  next
    case (Some u)
    with assms(1) have "totalExecutions u = Finite (of_nat n)" "avgRuntime u = Finite (of_int a)"
      by simp_all
    with st Some show ?thesis
      by (simp add: record_usage_def Let_def map_of_put parsed_runtime_def assms(2))
  qed
qed

text \<open>
  The amended C7 at a record with two executions and average 10, for a runtime of 15:
  the average becomes \<open>round (35 / 3) = 12\<close> and the count 3.
\<close>

theorem record_usage_average_witness:
  "\<exists>u'. map_of (record_usage ''00D'' ''20260101''
              [(commandKey (sample 15),
                (new_usage ''00D'' ''20260101'' (sample 15))
                  \<lparr>totalExecutions := Finite 2, avgRuntime := Finite 10\<rparr>)]
              (sample 15)) (commandKey (sample 15)) = Some u' \<and>
        avgRuntime u' = Finite 12 \<and> totalExecutions u' = Finite 3"
proof -
  have r: "round ((of_int 15 + of_int 10 * of_nat 2) / of_nat (2 + 1) :: rat) = 12"
    by (rule round_eqI) simp_all
  have h1: "case map_of [(commandKey (sample 15),
                (new_usage ''00D'' ''20260101'' (sample 15))
                  \<lparr>totalExecutions := Finite 2, avgRuntime := Finite 10\<rparr>)] (commandKey (sample 15)) of
             None \<Rightarrow> (2::nat) = 0 \<and> (10::int) = 0
           | Some u \<Rightarrow> totalExecutions u = Finite (of_nat 2) \<and> avgRuntime u = Finite (of_int 10)"
    by simp
  have h2: "runtime (sample 15) = of_int 15" by (simp add: sample_def)
  have h3: "\<bar>15::int\<bar> + \<bar>10\<bar> * int 2 < 2 ^ 52" by simp
  have h4: "(2::nat) < 2 ^ 52" by simp
  from record_usage_average[OF h1 h2 h3 h4, of "''00D''" "''20260101''"] show ?thesis
    unfolding r by simp
qed

text \<open>
  C7 as stated fails for large runtimes: after a first sample of \<open>2^53\<close> the record has
  count 1 and average \<open>2^53\<close>; a second sample of 1 gives the sum \<open>2^53 + 1\<close>, which
  the double addition rounds to \<open>2^53\<close>, so the new average is \<open>2^52\<close>, where the
  formula gives \<open>round ((1 + 2^53 * 1) / 2) = 2^52 + 1\<close>.
\<close>

theorem record_usage_average_large:
  "map (\<lambda>(k, u). (totalExecutions u, avgRuntime u))
     (record_usage ''00D'' ''20260101'' [] (sample (2 ^ 53))) = [(Finite 1, Finite (2 ^ 53))] \<and>
   map (\<lambda>(k, u). (totalExecutions u, avgRuntime u))
     (record_usage ''00D'' ''20260101'' (record_usage ''00D'' ''20260101'' [] (sample (2 ^ 53)))
        (sample 1)) = [(Finite 2, Finite (2 ^ 52))] \<and>
   round ((1 + 2 ^ 53 * 1) / (1 + 1) :: rat) = 2 ^ 52 + 1"
proof -
  have first: "record_usage ''00D'' ''20260101'' [] (sample (2 ^ 53)) =
      [(commandKey (sample (2 ^ 53)),
        (new_usage ''00D'' ''20260101'' (sample (2 ^ 53)))
          \<lparr>avgRuntime := Finite (2 ^ 53), totalExecutions := Finite 1\<rparr>)]"
    by (simp add: record_usage_def Let_def new_usage_def parsed_runtime_def sample_def
        to_double_small)
  have key: "commandKey (sample 1) = commandKey (sample (2 ^ 53))"
    by (simp add: commandKey_def sample_def version_of_def)
  have second: "map (\<lambda>(k, u). (totalExecutions u, avgRuntime u))
     (record_usage ''00D'' ''20260101''
        [(commandKey (sample (2 ^ 53)),
          (new_usage ''00D'' ''20260101'' (sample (2 ^ 53)))
            \<lparr>avgRuntime := Finite (2 ^ 53), totalExecutions := Finite 1\<rparr>)]
        (sample 1)) = [(Finite 2, Finite (2 ^ 52))]"
    by (simp add: record_usage_def Let_def key new_usage_def parsed_runtime_def
        to_double_small)
       (simp add: sample_def to_double_small)
  have third: "round ((1 + 2 ^ 53 * 1) / (1 + 1) :: rat) = 2 ^ 52 + 1"
    by (rule round_eqI) simp_all
  show ?thesis unfolding first using second third by simp
qed

section \<open>Proofs: the pipeline\<close>

subsection \<open>Stages that leave the exit alone\<close>

lemma quietI:
  "(\<And>p. exit_calls (snd (m p)) = exit_calls p \<and> exitCode (snd (m p)) = exitCode p \<and>
        (\<forall>c. fst (m p) \<noteq> Exited c)) \<Longrightarrow> quiet m"
  by (simp add: quiet_def)

lemma quietD:
  "quiet m \<Longrightarrow> m p = (r, q) \<Longrightarrow>
     exit_calls q = exit_calls p \<and> exitCode q = exitCode p \<and> (\<forall>c. r \<noteq> Exited c)"
  by (auto simp: quiet_def dest: spec[of _ p])

lemma quiet_then:
  assumes "quiet m" and "\<And>v. quiet (f v)"
  shows "quiet (then_task m f)"
proof (rule quietI)
  fix p
  obtain r q where mp: "m p = (r, q)" by (cases "m p")
  note a = quietD[OF assms(1) mp]
  show "exit_calls (snd (then_task m f p)) = exit_calls p \<and>
        exitCode (snd (then_task m f p)) = exitCode p \<and> (\<forall>c. fst (then_task m f p) \<noteq> Exited c)"
  proof (cases r)
    case (Resolved v)
    obtain r' q' where fq: "f v q = (r', q')" by (cases "f v q")
    from quietD[OF assms(2) fq] a show ?thesis by (simp add: then_task_def mp Resolved fq)
  next
    case (Rejected e)
    with a show ?thesis by (simp add: then_task_def mp)
  next
    case (Exited c)
    with a show ?thesis by simp
  qed
qed

lemma quiet_resolve: "quiet (resolve v)"
  by (simp add: quiet_def resolve_def)

lemma quiet_reject: "quiet (reject e)"
  by (simp add: quiet_def reject_def)

lemma quiet_of_sum: "quiet (of_sum r)"
  by (cases r) (simp_all add: of_sum_def quiet_resolve quiet_reject)

lemma quiet_emit: "quiet (emit x)"
  by (simp add: quiet_def emit_def)

lemma quiet_stopSpinner: "quiet stopSpinner"
  by (simp add: quiet_def stopSpinner_def)

lemma quiet_startSpinner: "quiet (startSpinner e ctx)"
  by (simp add: quiet_def startSpinner_def)

lemma telemetry_task:
  "\<exists>ev. logCommandComplete_task tenv cmdName p = (Resolved (), p\<lparr>tele := ev\<rparr>)"
  by (cases "logCommandComplete tenv cmdName")
     (auto simp: logCommandComplete_task_def logCommandComplete_def swallow_def Let_def
       split: sum.splits prod.splits)

lemma quiet_telemetry: "quiet (logCommandComplete_task tenv cmdName)"
proof (rule quietI)
  fix p
  from telemetry_task[of tenv cmdName p] obtain ev where
    "logCommandComplete_task tenv cmdName p = (Resolved (), p\<lparr>tele := ev\<rparr>)" ..
  then show "exit_calls (snd (logCommandComplete_task tenv cmdName p)) = exit_calls p \<and>
        exitCode (snd (logCommandComplete_task tenv cmdName p)) = exitCode p \<and>
        (\<forall>c. fst (logCommandComplete_task tenv cmdName p) \<noteq> Exited c)" by simp
qed

lemmas quiet_intros = quiet_then quiet_resolve quiet_reject quiet_of_sum quiet_emit
  quiet_stopSpinner quiet_startSpinner quiet_telemetry

lemma quiet_each_table: "quiet (each_table c obj tables)"
  by (induction tables) (auto intro!: quiet_intros split: sum.split option.split)

lemma quiet_logSuccess: "quiet (logSuccess e c ctx obj)"
proof (cases "isApiMode e ctx")
  case True
  then show ?thesis by (simp add: logSuccess_def quiet_def emit_def)
next
  case False
  then show ?thesis
    by (auto simp: logSuccess_def intro!: quiet_intros quiet_each_table
        split: sum.split option.split coldata.split)
qed

lemma quiet_logError: "quiet (logError e c ctx err)"
proof (cases "attach_action ctx err")
  case (Inl thrown)
  then show ?thesis by (simp add: logError_def quiet_reject)
next
  case (Inr err1)
  then show ?thesis
    by (auto simp: logError_def quiet_def then_task_def emit_def resolve_def split: option.split)
qed

lemma calmI:
  "(\<And>p. exit_calls (snd (m p)) = exit_calls p \<and> (\<forall>c. fst (m p) \<noteq> Exited c)) \<Longrightarrow> calm m"
  by (simp add: calm_def)

lemma calmD:
  "calm m \<Longrightarrow> m p = (r, q) \<Longrightarrow> exit_calls q = exit_calls p \<and> (\<forall>c. r \<noteq> Exited c)"
  by (auto simp: calm_def dest: spec[of _ p])

lemma quiet_calm: "quiet m \<Longrightarrow> calm m"
  by (simp add: quiet_def calm_def)

lemma calm_then:
  assumes "calm m" and "\<And>v. calm (f v)"
  shows "calm (then_task m f)"
proof (rule calmI)
  fix p
  obtain r q where mp: "m p = (r, q)" by (cases "m p")
  note a = calmD[OF assms(1) mp]
  show "exit_calls (snd (then_task m f p)) = exit_calls p \<and>
        (\<forall>c. fst (then_task m f p) \<noteq> Exited c)"
  proof (cases r)
    case (Resolved v)
    obtain r' q' where fq: "f v q = (r', q')" by (cases "f v q")
    from calmD[OF assms(2) fq] a show ?thesis by (simp add: then_task_def mp Resolved fq)
  next
    case (Rejected e)
    with a show ?thesis by (simp add: then_task_def mp)
  next
    case (Exited c)
    with a show ?thesis by simp
  qed
qed

lemma calm_run_handler: "calm (run_handler h)"
  by (auto simp: calm_def run_handler_def split: prod.split sum.split)

lemma calm_validate_stage: "calm (validate_stage c ctx)"
  by (auto simp: validate_stage_def intro: calm_run_handler quiet_calm[OF quiet_resolve]
      split: option.split)

lemma calm_org_stage: "calm (org_stage ctx fixedContext)"
  by (rule quiet_calm) (auto simp: org_stage_def intro!: quiet_intros split: option.split)

lemma calm_preExecute_stage: "calm (preExecute_stage c orgData)"
  by (rule quiet_calm) (auto simp: preExecute_stage_def intro!: quiet_intros split: option.split)

lemma calm_stages: "calm (stages e c ctx)"
  unfolding stages_def
  by (intro calm_then calm_validate_stage calm_org_stage calm_preExecute_stage
      quiet_calm[OF quiet_startSpinner] calm_run_handler)

lemma quiet_on_success: "quiet (on_success e tenv cmdName c ctx obj)"
  unfolding on_success_def by (intro quiet_intros quiet_logSuccess)


lemma exit_effect:
  assumes "exit_returns e ctx"
  shows "exit e ctx p =
     ((if exits_at_once e ctx then Exited (case exitCode p of None \<Rightarrow> 0 | Some n \<Rightarrow> n) else Resolved ()),
      p\<lparr>exit_calls := exit_calls p + 1,
        exit_timers := (if isl (resolve_softExit e ctx) \<or> isNil (projr (resolve_softExit e ctx))
                        then (if logger_isError e then exit_timers p else exit_timers p + 1)
                        else exit_timers p)\<rparr>)"
  using assms
  by (cases "resolve_softExit e ctx")
     (auto simp: exit_def exit_returns_def exits_at_once_def hard_exit_def Let_def)

lemma exit_calls_exit:
  assumes "exit_returns e ctx" and "exit e ctx p = (r, q)"
  shows "exit_calls q = exit_calls p + 1 \<and> (\<forall>x. r \<noteq> Rejected x)"
  using assms(2) unfolding exit_effect[OF assms(1)] by (auto split: if_splits)

lemma exit_calls_any: "exit_calls (snd (exit e ctx p)) = exit_calls p + 1"
  by (cases "resolve_softExit e ctx") (simp_all add: exit_def hard_exit_def Let_def)

lemma noResultsFound_missing:
  "getMessage ''noResultsFound'' None ''default'' =
     Inl (new_Error ''undefined default noResultsFound en_US'')"
  by (simp add: getMessage_def messages_def util_format_def getLocale_def)

lemma each_table_rejects:
  "each_table c obj tables q = (Rejected x, q') \<Longrightarrow>
     x = new_Error ''undefined default noResultsFound en_US''"
proof (induction tables arbitrary: q)
  case Nil
  then show ?case by (simp add: resolve_def)
next
  case (Cons kv rest)
  obtain key val where kv: "kv = (key, val)" by (cases kv)
  show ?case
  proof (cases "isEmpty (js_get obj key)")
    case True
    with Cons.prems show ?thesis
      by (simp add: kv noResultsFound_missing then_task_def reject_def)
  next
    case False
    with Cons.prems Cons.IH show ?thesis
      by (auto simp: kv then_task_def emit_def split: prod.splits settled.splits)
  qed
qed

lemma logSuccess_rejects:
  "logSuccess e c ctx obj q = (Rejected x, q') \<Longrightarrow>
     x = new_Error ''undefined default noResultsFound en_US''"
  by (auto simp: logSuccess_def noResultsFound_missing emit_def reject_def resolve_def
      dest: each_table_rejects split: if_splits option.splits coldata.splits)

lemma on_success_rejects:
  assumes "on_success e tenv cmdName c ctx obj q = (Rejected x, q')"
  shows "x = new_Error ''undefined default noResultsFound en_US''"
proof -
  obtain r1 q1 where ls: "logSuccess e c ctx obj (q\<lparr>spinning := False\<rparr>) = (r1, q1)"
    by (cases "logSuccess e c ctx obj (q\<lparr>spinning := False\<rparr>)")
  from telemetry_task[of tenv cmdName q1] obtain ev where
    t: "logCommandComplete_task tenv cmdName q1 = (Resolved (), q1\<lparr>tele := ev\<rparr>)" ..
  from assms have "r1 = Rejected x"
    by (cases r1) (simp_all add: on_success_def then_task_def stopSpinner_def ls t resolve_def)
  with ls show ?thesis by (auto dest: logSuccess_rejects)
qed

lemma report_of_missing_label:
  "\<not> isl (attach_action ctx (new_Error ''undefined default noResultsFound en_US''))"
  by (simp add: attach_action_def needs_action_def new_Error_def str_includes_def)


lemma logError_resolves:
  assumes "\<not> isl (attach_action ctx err0)"
  shows "\<exists>err q'. logError e c ctx err0 q = (Resolved err, q') \<and> exit_calls q' = exit_calls q"
proof -
  from assms obtain err where a: "attach_action ctx err0 = Inr err"
    by (cases "attach_action ctx err0") simp_all
  show ?thesis
    by (auto simp: logError_def a then_task_def emit_def resolve_def split: option.split)
qed

lemma on_failure_exit_calls:
  assumes "\<not> isl (attach_action ctx err0)"
  shows "exit_calls (snd (on_failure e tenv cmdName c ctx err0 q)) = exit_calls q + 1"
proof -
  from logError_resolves[OF assms] obtain err q1 where
    le: "logError e c ctx err0 (q\<lparr>spinning := False\<rparr>) = (Resolved err, q1)"
    and c1: "exit_calls q1 = exit_calls q" by force
  from telemetry_task[of tenv cmdName q1] obtain ev where
    t: "logCommandComplete_task tenv cmdName q1 = (Resolved (), q1\<lparr>tele := ev\<rparr>)" ..
  let ?q2 = "q1\<lparr>tele := ev, exitCode := Some (Suc 0)\<rparr>"
  obtain r3 q3 where ex: "exit e ctx ?q2 = (r3, q3)"
    by (cases "exit e ctx ?q2")
  from exit_calls_any[of e ctx ?q2] ex c1 have c3: "exit_calls q3 = exit_calls q + 1" by simp
  show ?thesis
    using c3
    by (cases "logServerError e err"; cases r3)
       (simp_all add: on_failure_def then_task_def finally_task_def stopSpinner_def le t
         of_sum_def resolve_def reject_def set_exitCode_def ex)
qed

lemma finally_stopSpinner_calls:
  "exit_calls (snd (finally_task m stopSpinner p)) = exit_calls (snd (m p))"
  by (cases "m p") (auto simp: finally_task_def stopSpinner_def split: settled.split)

lemma finally_stopSpinner_fst:
  "fst (finally_task m stopSpinner p) = fst (m p)"
  by (cases "m p") (auto simp: finally_task_def stopSpinner_def split: settled.split)

lemma execCommand_exit_calls:
  "exit_calls (snd (execCommand e tenv cmdName c ctx p)) =
     exit_calls (snd (catch_task
        (then_task (then_task (stages e c ctx) (on_success e tenv cmdName c ctx)) (on_exit e ctx))
        (on_failure e tenv cmdName c ctx) (p\<lparr>exitCode := None\<rparr>)))"
  by (simp add: execCommand_def then_task_def set_exitCode_def finally_stopSpinner_calls)

lemma exit_once_on_failure:
  assumes "stages e c ctx (p\<lparr>exitCode := None\<rparr>) = (Rejected err, q)"
    and "\<not> isl (attach_action ctx err)"
  shows "exit_calls (snd (execCommand e tenv cmdName c ctx p)) = exit_calls p + 1"
proof -
  from calmD[OF calm_stages assms(1)] have c1: "exit_calls q = exit_calls p" by simp
  from on_failure_exit_calls[OF assms(2), of e tenv cmdName c q] c1 show ?thesis
    by (simp add: execCommand_exit_calls catch_task_def then_task_def assms(1))
qed

lemma exit_once_on_success:
  assumes "stages e c ctx (p\<lparr>exitCode := None\<rparr>) = (Resolved obj, q1)"
    and "exit_returns e ctx"
  shows "exit_calls (snd (execCommand e tenv cmdName c ctx p)) = exit_calls p + 1"
proof -
  from calmD[OF calm_stages assms(1)] have c1: "exit_calls q1 = exit_calls p" by simp
  obtain r2 q2 where os: "on_success e tenv cmdName c ctx obj q1 = (r2, q2)"
    by (cases "on_success e tenv cmdName c ctx obj q1")
  from quietD[OF quiet_on_success os] c1 have c2: "exit_calls q2 = exit_calls p"
    and ne2: "\<forall>x. r2 \<noteq> Exited x" by simp_all
  show ?thesis
  proof (cases r2)
    case (Resolved v)
    obtain r3 q3 where ex: "exit e ctx q2 = (r3, q3)" by (cases "exit e ctx q2")
    from exit_calls_exit[OF assms(2) ex] c2 have "exit_calls q3 = exit_calls p + 1"
      and "\<forall>x. r3 \<noteq> Rejected x" by simp_all
    then show ?thesis
      using Resolved
      by (cases r3)
         (simp_all add: execCommand_exit_calls catch_task_def then_task_def assms(1) os
           on_exit_def ex resolve_def)
  next
    case (Rejected x)
    with os have "x = new_Error ''undefined default noResultsFound en_US''"
      by (auto dest: on_success_rejects)
    then have "\<not> isl (attach_action ctx x)"
      by (simp only: report_of_missing_label not_False_eq_True)
    from on_failure_exit_calls[OF this, of e tenv cmdName c q2] c2 show ?thesis
      using Rejected
      by (simp add: execCommand_exit_calls catch_task_def then_task_def assms(1) os)
  next
    case (Exited x)
    with ne2 show ?thesis by simp
  qed
qed

text \<open>
  C5, as amended. In every run of \<open>_execCommand\<close>, \<open>_exit\<close> is called exactly once
  when a stage up to \<open>execute\<close> fails (validation or execution failure), provided
  the error reporter does not throw on that error; and exactly once when those stages
  succeed, provided \<open>_exit\<close> itself does not throw.
\<close>

theorem exit_called_once:
  "(\<forall>err q. stages e c ctx (p\<lparr>exitCode := None\<rparr>) = (Rejected err, q) \<longrightarrow>
       \<not> isl (attach_action ctx err) \<longrightarrow>
       exit_calls (snd (execCommand e tenv cmdName c ctx p)) = exit_calls p + 1) \<and>
   (\<forall>obj q. stages e c ctx (p\<lparr>exitCode := None\<rparr>) = (Resolved obj, q) \<longrightarrow>
       exit_returns e ctx \<longrightarrow>
       exit_calls (snd (execCommand e tenv cmdName c ctx p)) = exit_calls p + 1)"
  using exit_once_on_failure exit_once_on_success by blast

text \<open>
  C10, as amended. On the success path (the stages up to \<open>execute\<close> resolve with
  \<open>obj\<close>), when the success report does not throw and \<open>_exit\<close> does not throw, the
  promise of \<open>_execCommand\<close> resolves with exactly \<open>obj\<close>, unless \<open>_exit\<close> ends the
  process at once (no soft exit, logger at error level): then the process ends with
  the exit code pending after \<open>execute\<close> (0 if none is set) and the promise never
  settles.
\<close>

theorem result_passed_through:
  assumes "stages e c ctx (p\<lparr>exitCode := None\<rparr>) = (Resolved obj, q)"
    and "\<forall>q. fst (logSuccess e c ctx obj q) = Resolved ()"
    and "exit_returns e ctx"
  shows "fst (execCommand e tenv cmdName c ctx p) =
           (if exits_at_once e ctx
            then Exited (case exitCode q of None \<Rightarrow> 0 | Some n \<Rightarrow> n)
            else Resolved obj)"
proof -
  let ?p1 = "p\<lparr>exitCode := None\<rparr>"
  note st = assms(1)
  obtain q2 where ls: "logSuccess e c ctx obj (q\<lparr>spinning := False\<rparr>) = (Resolved (), q2)"
    using assms(2) by (cases "logSuccess e c ctx obj (q\<lparr>spinning := False\<rparr>)") (metis fst_conv)
  from quietD[OF quiet_logSuccess ls] have e2: "exitCode q2 = exitCode q" by simp
  from telemetry_task[of tenv cmdName q2] obtain ev where
    t: "logCommandComplete_task tenv cmdName q2 = (Resolved (), q2\<lparr>tele := ev\<rparr>)" ..
  have os: "on_success e tenv cmdName c ctx obj q = (Resolved obj, q2\<lparr>tele := ev\<rparr>)"
    by (simp add: on_success_def then_task_def stopSpinner_def ls t resolve_def)
  have "fst (execCommand e tenv cmdName c ctx p) =
          fst (on_exit e ctx obj (q2\<lparr>tele := ev\<rparr>))"
    by (cases "on_exit e ctx obj (q2\<lparr>tele := ev\<rparr>)")
       (auto simp: execCommand_def then_task_def set_exitCode_def finally_stopSpinner_fst
         catch_task_def st os on_exit_def exit_effect[OF assms(3)] resolve_def split: if_splits)
  also have "\<dots> = (if exits_at_once e ctx
                    then Exited (case exitCode q of None \<Rightarrow> 0 | Some n \<Rightarrow> n)
                    else Resolved obj)"
    by (simp add: on_exit_def then_task_def exit_effect[OF assms(3)] e2 resolve_def)
  finally show ?thesis .
qed

subsection \<open>The theorems at concrete runs\<close>

lemma no_token_no_throw: "\<not> isl (attach_action (ctx_plan path) err)"
  by (simp add: attach_action_def needs_action_def ctx_plan_def)

lemma exit_returns_examples:
  "exit_returns env_soft (ctx_plan path)" "exit_returns env_default (ctx_plan path)"
  by (simp_all add: exit_returns_def resolve_softExit_def env_soft_def env_default_def ctx_plan_def)

text \<open>
  The amended C5 at three runs from a fresh process: the split command succeeding, the
  split command failing on a missing manifest, and a command whose validation fails
  while \<open>_exit\<close> throws.
\<close>

theorem exit_called_once_witness:
  "exit_calls (snd (execCommand env_default tenv_idle ''split'' (data_split fs_two_entries ''/w'')
      (ctx_plan ''plan.json'') proc0)) = 1 \<and>
   exit_calls (snd (execCommand env_soft tenv_idle ''split'' (data_split fs_mixed ''/w'')
      (ctx_plan ''nothere.json'') proc0)) = 1 \<and>
   exit_calls (snd (execCommand env_config_fails tenv_idle ''split'' invalid
      (ctx_plan ''plan.json'') proc0)) = 1"
proof -
  have s1: "stages env_default (data_split fs_two_entries ''/w'') (ctx_plan ''plan.json'')
      (proc0\<lparr>exitCode := None\<rparr>) = (Resolved (JBool True), proc0)"
    by code_simp
  have s2: "stages env_soft (data_split fs_mixed ''/w'') (ctx_plan ''nothere.json'')
      (proc0\<lparr>exitCode := None\<rparr>) =
      (Rejected (new_Error ''undefined default Could not find specified file en_US''), proc0)"
    by code_simp
  have s3: "stages env_config_fails invalid (ctx_plan ''plan.json'') (proc0\<lparr>exitCode := None\<rparr>) =
      (Rejected (new_Error ''Invalid flags''), proc0)"
    by code_simp
  have z: "exit_calls proc0 = 0" by (simp add: proc0_def)
  from exit_called_once[of env_default "data_split fs_two_entries ''/w''" "ctx_plan ''plan.json''"
      proc0 tenv_idle "''split''"] s1 exit_returns_examples(2)
  have a: "exit_calls (snd (execCommand env_default tenv_idle ''split''
      (data_split fs_two_entries ''/w'') (ctx_plan ''plan.json'') proc0)) = 1"
    by (simp add: z)
  from exit_called_once[of env_soft "data_split fs_mixed ''/w''" "ctx_plan ''nothere.json''"
      proc0 tenv_idle "''split''"] s2 no_token_no_throw
  have b: "exit_calls (snd (execCommand env_soft tenv_idle ''split'' (data_split fs_mixed ''/w'')
      (ctx_plan ''nothere.json'') proc0)) = 1"
    by (simp add: z)
  from exit_called_once[of env_config_fails invalid "ctx_plan ''plan.json''"
      proc0 tenv_idle "''split''"] s3 no_token_no_throw
  have c: "exit_calls (snd (execCommand env_config_fails tenv_idle ''split'' invalid
      (ctx_plan ''plan.json'') proc0)) = 1"
    by (simp add: z)
  from a b c show ?thesis by (intro conjI)
qed

text \<open>
  C5 as stated fails: the split command succeeds, \<open>_exit\<close> throws because the
  configuration lookup fails with an error it does not expect, the rejection reaches
  \<open>.catch\<close>, and the failure handler calls \<open>_exit\<close> a second time.
\<close>

theorem exit_called_twice:
  "exit_calls (snd (execCommand env_config_fails tenv_idle ''split'' (data_split fs_two_entries ''/w'')
      (ctx_plan ''plan.json'') proc0)) = 2"
  by code_simp

text \<open>
  The amended C10 at a run of the split command under a soft exit, and at a command
  that sets the exit code to 3 in the default environment.
\<close>

theorem result_passed_through_witness:
  "fst (execCommand env_soft tenv_idle ''split'' (data_split fs_two_entries ''/w'')
      (ctx_plan ''plan.json'') proc0) = Resolved (JBool True) \<and>
   fst (execCommand env_default tenv_idle ''split'' (exiting_with (JNum 7) 3)
      (ctx_plan ''plan.json'') proc0) = Exited 3"
proof -
  have st: "stages env_soft (data_split fs_two_entries ''/w'') (ctx_plan ''plan.json'')
      (proc0\<lparr>exitCode := None\<rparr>) = (Resolved (JBool True), proc0)"
    by code_simp
  have ls: "\<forall>q. fst (logSuccess env_soft (data_split fs_two_entries ''/w'') (ctx_plan ''plan.json'')
      (JBool True) q) = Resolved ()"
    by (simp add: logSuccess_def isApiMode_def env_soft_def env_default_def ctx_plan_def
        env_truthy_def data_split_def resolve_def)
  have n: "\<not> exits_at_once env_soft (ctx_plan ''plan.json'')"
    by (simp add: exits_at_once_def resolve_softExit_def env_soft_def env_default_def ctx_plan_def
        isNil_def)
  have a: "fst (execCommand env_soft tenv_idle ''split'' (data_split fs_two_entries ''/w'')
      (ctx_plan ''plan.json'') proc0) = Resolved (JBool True)"
    using result_passed_through[OF st ls exit_returns_examples(1), of tenv_idle "''split''"] n
    by simp
  have st': "stages env_default (exiting_with (JNum 7) 3) (ctx_plan ''plan.json'')
      (proc0\<lparr>exitCode := None\<rparr>) = (Resolved (JNum 7), proc0\<lparr>exitCode := Some 3\<rparr>)"
    by code_simp
  have ls': "\<forall>q. fst (logSuccess env_default (exiting_with (JNum 7) 3) (ctx_plan ''plan.json'')
      (JNum 7) q) = Resolved ()"
    by (simp add: logSuccess_def isApiMode_def env_default_def ctx_plan_def
        env_truthy_def exiting_with_def returning_def resolve_def)
  have y: "exits_at_once env_default (ctx_plan ''plan.json'')"
    by (simp add: exits_at_once_def resolve_softExit_def env_default_def ctx_plan_def isNil_def)
  have b: "fst (execCommand env_default tenv_idle ''split'' (exiting_with (JNum 7) 3)
      (ctx_plan ''plan.json'') proc0) = Exited 3"
    using result_passed_through[OF st' ls' exit_returns_examples(2), of tenv_idle "''split''"] y
    by simp
  from a b show ?thesis by (rule conjI)
qed

text \<open>
  C10 as stated fails: \<open>execute\<close> of the split command resolves with \<open>true\<close>; in
  the default environment \<open>_exit\<close> ends the process with code 0 inside the exit
  handler, before the promise of \<open>_execCommand\<close> settles; and when \<open>_exit\<close> throws,
  the promise is rejected with what it threw.
\<close>

theorem result_lost_on_hard_exit:
  "split_execute fs_two_entries ''/w'' (ctx_plan ''plan.json'') = Inr (JBool True) \<and>
   fst (execCommand env_default tenv_idle ''split'' (data_split fs_two_entries ''/w'')
      (ctx_plan ''plan.json'') proc0) = Exited 0 \<and>
   fst (execCommand env_config_fails tenv_idle ''split'' (data_split fs_two_entries ''/w'')
      (ctx_plan ''plan.json'') proc0) = Rejected (new_Error ''EACCES'')"
  by code_simp

subsection \<open>Messages the reporters look up\<close>

text \<open>
  C8, at an error without action whose message is \<open>Session expired or invalid\<close>, in a
  token-based session. The reporter looks the action text up under the label
  \<open>invalidInstanceUrlForAccessTokenAction\<close>, which the catalogue does not have:
  \<open>getMessage\<close> throws, no action is attached and nothing is rendered. In
  \<open>_execCommand\<close> the throw ends the failure handler before it calls \<open>_exit\<close>.
\<close>

theorem logError_action_lookup_throws:
  "logError env_soft c ctx_token (new_Error ''Session expired or invalid'') p =
     (Rejected (new_Error (util_format None
        [''default'', ''invalidInstanceUrlForAccessTokenAction'', ''en_US''])), p) \<and>
   exit_calls (snd (execCommand env_soft tenv_idle ''split''
      (failing (new_Error ''Session expired or invalid'')) ctx_token proc0)) = 0"
proof -
  have "logError env_soft c ctx_token (new_Error ''Session expired or invalid'') p =
     (Rejected (new_Error (util_format None
        [''default'', ''invalidInstanceUrlForAccessTokenAction'', ''en_US''])), p)"
    by (simp add: logError_def attach_action_def needs_action_def ctx_token_def ctx_plan_def
        new_Error_def str_includes_def getMessage_def messages_def util_format_def getLocale_def
        reject_def)
  moreover have "exit_calls (snd (execCommand env_soft tenv_idle ''split''
      (failing (new_Error ''Session expired or invalid'')) ctx_token proc0)) = 0"
    by code_simp
  ultimately show ?thesis by (rule conjI)
qed

text \<open>
  C9, at an empty array in human mode. The reporter looks the text up under the label
  \<open>noResultsFound\<close>, which the catalogue does not have: \<open>getMessage\<close> throws and
  nothing is printed.
\<close>

theorem logSuccess_empty_array_throws:
  "logSuccess env_soft c (ctx_plan ''plan.json'') (JArr []) p =
     (Rejected (new_Error (util_format None [''default'', ''noResultsFound'', ''en_US''])), p)"
  by (simp add: logSuccess_def isApiMode_def env_soft_def env_default_def ctx_plan_def
      env_truthy_def getMessage_def messages_def util_format_def getLocale_def reject_def)

end
